theory Spec2Isabelle
  imports Main "HOL-Library.Sublist"
begin

section \<open>Python values shared by the three scripts\<close>

text \<open>
  Strings are byte strings (\<open>string\<close>); the helpers below follow Python's \<open>str\<close>
  methods on ASCII text.  Code points beyond ASCII (further white space, further line
  boundaries, non-ASCII case pairs) are outside the model.

  Every \<open>try: ... except Exception\<close> of the sources is modelled by a body that
  returns \<open>exn + 'a\<close> (\<open>Inl\<close> is the raised exception) and a wrapper that maps
  \<open>Inl\<close> to the value of the handler.  Writes to local files are taken to succeed;
  the network, the clock, the parsing libraries and the files that the scripts read
  are inputs.
\<close>

datatype exn =
    ConnectionError
  | HTTPError nat
  | ParseError
  | AttributeError
  | JSONDecodeError
  | MissingSchema
  | TypeError
  | OSError

text \<open>Python truthiness of an optional string: \<open>None\<close> and \<open>''\<close> are falsy.\<close>

definition truthy :: "string option \<Rightarrow> bool" where
  "truthy s = (case s of None \<Rightarrow> False | Some v \<Rightarrow> v \<noteq> [])"

text \<open>How an f-string prints an optional string (\<open>None\<close> prints as \<open>None\<close>).\<close>

definition fmt :: "string option \<Rightarrow> string" where
  "fmt s = (case s of None \<Rightarrow> ''None'' | Some v \<Rightarrow> v)"

definition upper_letters :: string where
  "upper_letters = ''ABCDEFGHIJKLMNOPQRSTUVWXYZ''"

definition lower_letters :: string where
  "lower_letters = ''abcdefghijklmnopqrstuvwxyz''"

definition lower_char :: "char \<Rightarrow> char" where
  "lower_char c = (case map_of (zip upper_letters lower_letters) c of
                     None \<Rightarrow> c | Some d \<Rightarrow> d)"

definition upper_char :: "char \<Rightarrow> char" where
  "upper_char c = (case map_of (zip lower_letters upper_letters) c of
                     None \<Rightarrow> c | Some d \<Rightarrow> d)"

text \<open>\<open>str.lower\<close> and \<open>str.capitalize\<close>.\<close>

definition lower :: "string \<Rightarrow> string" where
  "lower s = map lower_char s"

definition capitalize :: "string \<Rightarrow> string" where
  "capitalize s = (case s of [] \<Rightarrow> [] | c # cs \<Rightarrow> upper_char c # map lower_char cs)"

text \<open>\<open>str.isspace\<close> on ASCII: tab, LF, VT, FF, CR, FS, GS, RS, US and space.\<close>

definition is_space :: "char \<Rightarrow> bool" where
  "is_space c = (c \<in> set [CHR 0x09, CHR 0x0A, CHR 0x0B, CHR 0x0C, CHR 0x0D,
                            CHR 0x1C, CHR 0x1D, CHR 0x1E, CHR 0x1F, CHR '' ''])"

definition lstrip :: "string \<Rightarrow> string" where
  "lstrip s = dropWhile is_space s"

definition rstrip :: "string \<Rightarrow> string" where
  "rstrip s = rev (dropWhile is_space (rev s))"

definition strip :: "string \<Rightarrow> string" where
  "strip s = rstrip (lstrip s)"

text \<open>\<open>s.startswith(('http://', 'https://'))\<close>.\<close>

definition is_absolute :: "string \<Rightarrow> bool" where
  "is_absolute s = (prefix ''http://'' s \<or> prefix ''https://'' s)"

text \<open>\<open>needle in haystack\<close> on strings.\<close>

fun contains :: "string \<Rightarrow> string \<Rightarrow> bool" where
  "contains needle [] = (needle = [])"
| "contains needle (c # cs) = (prefix needle (c # cs) \<or> contains needle cs)"

text \<open>\<open>', '.join(xs)\<close>.\<close>

fun join_comma :: "string list \<Rightarrow> string" where
  "join_comma [] = []"
| "join_comma [x] = x"
| "join_comma (x # y # ys) = x @ '', '' @ join_comma (y # ys)"

text \<open>\<open>str(n)\<close> for a non-negative integer.\<close>

definition digit :: "nat \<Rightarrow> char" where
  "digit n = ''0123456789'' ! (n mod 10)"

function str_nat :: "nat \<Rightarrow> string" where
  "str_nat n = (if n < 10 then [digit n] else str_nat (n div 10) @ [digit n])"
  by pat_completeness auto
termination
  by (relation "measure (\<lambda>n. n)") auto

declare str_nat.simps [simp del]

text \<open>A number printed with leading zeros to a width, as \<open>%m\<close> or \<open>%H\<close> print.\<close>

definition zero_pad :: "nat \<Rightarrow> nat \<Rightarrow> string" where
  "zero_pad w n = replicate (w - length (str_nat n)) (CHR ''0'') @ str_nat n"

text \<open>
  A reading of \<open>datetime.now()\<close>.  A function that reads the clock several times takes
  the readings as \<open>nat \<Rightarrow> datetime\<close>: reading \<open>k\<close> is the \<open>k\<close>-th call.
\<close>

record datetime =
  year :: nat
  month :: nat
  day :: nat
  hour :: nat
  minute :: nat
  second :: nat

definition month_abbr :: "nat \<Rightarrow> string" where
  "month_abbr m = [''Jan'', ''Feb'', ''Mar'', ''Apr'', ''May'', ''Jun'',
                   ''Jul'', ''Aug'', ''Sep'', ''Oct'', ''Nov'', ''Dec''] ! ((m - 1) mod 12)"

text \<open>\<open>strftime('%Y-%m-%d %H:%M:%S')\<close>\<close>

definition strftime_iso :: "datetime \<Rightarrow> string" where
  "strftime_iso t = zero_pad 4 (year t) @ ''-'' @ zero_pad 2 (month t) @ ''-'' @
     zero_pad 2 (day t) @ '' '' @ zero_pad 2 (hour t) @ '':'' @ zero_pad 2 (minute t) @
     '':'' @ zero_pad 2 (second t)"

text \<open>\<open>strftime('%Y%m%d_%H%M%S')\<close>\<close>

definition strftime_stamp :: "datetime \<Rightarrow> string" where
  "strftime_stamp t = zero_pad 4 (year t) @ zero_pad 2 (month t) @ zero_pad 2 (day t) @
     ''_'' @ zero_pad 2 (hour t) @ zero_pad 2 (minute t) @ zero_pad 2 (second t)"

text \<open>\<open>strftime('%b %d, %Y')\<close>\<close>

definition strftime_human :: "datetime \<Rightarrow> string" where
  "strftime_human t = month_abbr (month t) @ '' '' @ zero_pad 2 (day t) @ '', '' @
     zero_pad 4 (year t)"

section \<open>fetch_news.py\<close>

subsection \<open>The data\<close>

text \<open>
  An article as \<open>fetch_rss_feed\<close> and \<open>fetch_website\<close> build it (a dict with these
  keys).  \<open>link\<close> is optional because \<open>fetch_website\<close> stores the \<open>href\<close> of an
  anchor, which may be absent; \<open>local_image\<close> is the key that \<open>main\<close> adds after a
  download.
\<close>

record article =
  title :: string
  link :: "string option"
  published :: string
  summary :: string
  image_url :: "string option"
  source :: string
  local_image :: "string option"

text \<open>
  A feed entry as \<open>feedparser\<close> delivers it.  A field is \<open>None\<close> when the entry has
  no such key; \<open>media_content\<close> lists, for each media dict, its \<open>url\<close> if it has
  one, and \<open>entry_content\<close> lists, for each content dict, its \<open>value\<close>.
\<close>

record entry =
  entry_title :: "string option"
  entry_link :: "string option"
  entry_published :: "string option"
  entry_summary :: "string option"
  media_content :: "string option list option"
  entry_content :: "string option list option"

text \<open>
  One element matched by \<open>soup.select('article, .post, .blog-post, .entry')\<close>, with
  the results of its four \<open>select_one\<close> calls: the text of the title and summary
  elements, and for the first anchor and the first image the attribute (\<open>Some None\<close>
  is an element without the attribute).
\<close>

record block =
  title_elem :: "string option"
  link_elem :: "string option option"
  summary_elem :: "string option"
  image_elem :: "string option option"

text \<open>
  The answer to the streamed image request: no response at all, or a status code and
  whether the body then streams to its end.
\<close>

datatype image_reply = NoResponse | Response nat bool

text \<open>
  What the script takes from outside: the feed parser, the HTTP client, the HTML
  parser, \<open>urllib\<close>, \<open>hashlib\<close> and the clock.  \<open>image_get\<close> is given the
  requests made before it, so a host may answer the same URL differently over time.
  \<open>clock u k\<close> is the \<open>k\<close>-th reading made while source \<open>u\<close> is read.
\<close>

record web =
  feedparser_parse :: "string \<Rightarrow> exn + entry list"
  requests_get :: "string \<Rightarrow> exn + nat \<times> string"
  page_blocks :: "string \<Rightarrow> exn + block list"
  find_img :: "string \<Rightarrow> string option option"
  urljoin :: "string \<Rightarrow> string \<Rightarrow> string"
  unquote :: "string \<Rightarrow> string"
  md5_hexdigest :: "string \<Rightarrow> string"
  image_get :: "string list \<Rightarrow> string \<Rightarrow> image_reply"
  clock :: "string \<Rightarrow> nat \<Rightarrow> datetime"

text \<open>\<open>response.raise_for_status()\<close>: statuses 400 to 599 raise.\<close>

definition raise_for_status :: "nat \<Rightarrow> exn + unit" where
  "raise_for_status st = (if 400 \<le> st \<and> st < 600 then Inl (HTTPError st) else Inr ())"

subsection \<open>fetch_rss_feed\<close>

text \<open>The first media dict that has a \<open>url\<close> key decides (the loop breaks there).\<close>

fun media_url :: "string option list \<Rightarrow> string option" where
  "media_url [] = None"
| "media_url (None # ms) = media_url ms"
| "media_url (Some u # ms) = Some u"

text \<open>The first content whose HTML has an \<open>img\<close> with a \<open>src\<close>.\<close>

fun content_img :: "web \<Rightarrow> string option list \<Rightarrow> string option" where
  "content_img w [] = None"
| "content_img w (None # cs) = content_img w cs"
| "content_img w (Some v # cs) =
     (case find_img w v of Some (Some src) \<Rightarrow> Some src | _ \<Rightarrow> content_img w cs)"

definition entry_image :: "web \<Rightarrow> entry \<Rightarrow> string option" where
  "entry_image w e =
     (let i1 = (case media_content e of None \<Rightarrow> None | Some ms \<Rightarrow> media_url ms);
          i2 = (if \<not> truthy i1 then
                  (case entry_content e of
                     None \<Rightarrow> i1
                   | Some cs \<Rightarrow> (case content_img w cs of None \<Rightarrow> i1 | Some src \<Rightarrow> Some src))
                else i1)
      in if \<not> truthy i2 then
           (case entry_summary e of
              None \<Rightarrow> i2
            | Some s \<Rightarrow> (case find_img w s of Some (Some src) \<Rightarrow> Some src | _ \<Rightarrow> i2))
         else i2)"

text \<open>
  One turn of the loop.  \<open>entry.title\<close> and \<open>entry.link\<close> raise \<open>AttributeError\<close>
  on an entry without them.
\<close>

definition rss_article :: "web \<Rightarrow> string \<Rightarrow> datetime \<Rightarrow> entry \<Rightarrow> exn + article" where
  "rss_article w url now e =
     (case entry_title e of
        None \<Rightarrow> Inl AttributeError
      | Some t \<Rightarrow>
          (case entry_link e of
             None \<Rightarrow> Inl AttributeError
           | Some l \<Rightarrow>
               Inr \<lparr>title = t, link = Some l,
                    published = (case entry_published e of
                                   None \<Rightarrow> strftime_iso now | Some p \<Rightarrow> p),
                    summary = (case entry_summary e of None \<Rightarrow> [] | Some s \<Rightarrow> s),
                    image_url = entry_image w e, source = url, local_image = None\<rparr>))"

fun rss_articles :: "web \<Rightarrow> string \<Rightarrow> nat \<Rightarrow> entry list \<Rightarrow> exn + article list" where
  "rss_articles w url k [] = Inr []"
| "rss_articles w url k (e # es) =
     (case rss_article w url (clock w url k) e of
        Inl x \<Rightarrow> Inl x
      | Inr a \<Rightarrow>
          (case rss_articles w url (Suc k) es of
             Inl x \<Rightarrow> Inl x
           | Inr as \<Rightarrow> Inr (a # as)))"

text \<open>The body of the \<open>try\<close>.\<close>

definition fetch_rss_feed_try :: "web \<Rightarrow> string \<Rightarrow> exn + article list" where
  "fetch_rss_feed_try w url =
     (case feedparser_parse w url of
        Inl x \<Rightarrow> Inl x
      | Inr entries \<Rightarrow> rss_articles w url 0 (take 10 entries))"

definition fetch_rss_feed :: "web \<Rightarrow> string \<Rightarrow> article list" where
  "fetch_rss_feed w url =
     (case fetch_rss_feed_try w url of Inl x \<Rightarrow> [] | Inr articles \<Rightarrow> articles)"

subsection \<open>fetch_website\<close>

text \<open>A relative URL is made absolute; \<open>None\<close> and the empty string are left alone.\<close>

definition absolutize :: "web \<Rightarrow> string \<Rightarrow> string option \<Rightarrow> string option" where
  "absolutize w base u =
     (case u of
        None \<Rightarrow> None
      | Some v \<Rightarrow> if v \<noteq> [] \<and> \<not> is_absolute v then Some (urljoin w base v) else Some v)"

definition block_article :: "web \<Rightarrow> string \<Rightarrow> datetime \<Rightarrow> block \<Rightarrow> article option" where
  "block_article w url now b =
     (case title_elem b of
        None \<Rightarrow> None
      | Some t \<Rightarrow>
          (case link_elem b of
             None \<Rightarrow> None
           | Some href \<Rightarrow>
               Some \<lparr>title = strip t, link = absolutize w url href,
                     published = strftime_iso now,
                     summary = (case summary_elem b of None \<Rightarrow> [] | Some s \<Rightarrow> strip s),
                     image_url = (case image_elem b of
                                    Some (Some src) \<Rightarrow> absolutize w url (Some src)
                                  | _ \<Rightarrow> None),
                     source = url, local_image = None\<rparr>))"

text \<open>
  The loop over the blocks.  The clock is read only for a block that yields an article,
  so a skipped block leaves the index of the next reading as it is.
\<close>

fun website_articles :: "web \<Rightarrow> string \<Rightarrow> nat \<Rightarrow> block list \<Rightarrow> article list" where
  "website_articles w url k [] = []"
| "website_articles w url k (b # bs) =
     (case block_article w url (clock w url k) b of
        None \<Rightarrow> website_articles w url k bs
      | Some a \<Rightarrow> a # website_articles w url (Suc k) bs)"

definition fetch_website_try :: "web \<Rightarrow> string \<Rightarrow> exn + article list" where
  "fetch_website_try w url =
     (case requests_get w url of
        Inl x \<Rightarrow> Inl x
      | Inr (st, body) \<Rightarrow>
          (case raise_for_status st of
             Inl x \<Rightarrow> Inl x
           | Inr _ \<Rightarrow>
               (case page_blocks w body of
                  Inl x \<Rightarrow> Inl x
                | Inr blocks \<Rightarrow> Inr (website_articles w url 0 (take 10 blocks)))))"

definition fetch_website :: "web \<Rightarrow> string \<Rightarrow> article list" where
  "fetch_website w url =
     (case fetch_website_try w url of Inl x \<Rightarrow> [] | Inr articles \<Rightarrow> articles)"

text \<open>What the \<open>except\<close> branches print: the kind of source, its URL and the exception.\<close>

datatype warning = Warning string string exn

definition fetch_rss_feed_printed :: "web \<Rightarrow> string \<Rightarrow> warning list" where
  "fetch_rss_feed_printed w url =
     (case fetch_rss_feed_try w url of
        Inl x \<Rightarrow> [Warning ''Error fetching RSS feed'' url x]
      | Inr _ \<Rightarrow> [])"

definition fetch_website_printed :: "web \<Rightarrow> string \<Rightarrow> warning list" where
  "fetch_website_printed w url =
     (case fetch_website_try w url of
        Inl x \<Rightarrow> [Warning ''Error fetching website'' url x]
      | Inr _ \<Rightarrow> [])"

subsection \<open>download_image\<close>

text \<open>
  \<open>os.path.splitext(p)[-1]\<close> as the standard library computes it: the extension starts
  at the last dot of the last path component, and a component whose only characters
  before that dot are dots has no extension.
\<close>

definition basename :: "string \<Rightarrow> string" where
  "basename p = rev (takeWhile (\<lambda>c. c \<noteq> CHR ''/'') (rev p))"

definition splitext_ext :: "string \<Rightarrow> string" where
  "splitext_ext p =
     (let b = basename p;
          after_dot = takeWhile (\<lambda>c. c \<noteq> CHR ''.'') (rev b);
          stem = rev (drop (Suc (length after_dot)) (rev b))
      in if CHR ''.'' \<in> set b \<and> dropWhile (\<lambda>c. c = CHR ''.'') stem \<noteq> []
         then CHR ''.'' # rev after_dot else [])"

text \<open>\<open>url.split('?')[0]\<close>\<close>

definition before_query :: "string \<Rightarrow> string" where
  "before_query url = takeWhile (\<lambda>c. c \<noteq> CHR ''?'') url"

definition file_ext :: "web \<Rightarrow> string \<Rightarrow> string" where
  "file_ext w url =
     (let ext = splitext_ext (unquote w (before_query url))
      in if ext = [] \<or> length ext > 5 then ''.jpg'' else ext)"

text \<open>\<open>os.path.join\<close> of two components.\<close>

definition path_join :: "string \<Rightarrow> string \<Rightarrow> string" where
  "path_join a b =
     (if prefix ''/'' b then b
      else if a = [] \<or> suffix ''/'' a then a @ b
      else a @ ''/'' @ b)"

definition local_path :: "web \<Rightarrow> string \<Rightarrow> string \<Rightarrow> string" where
  "local_path w url ttl =
     path_join (path_join ''data'' ''images'')
       (md5_hexdigest w (ttl @ ''_'' @ url) @ file_ext w url)"

text \<open>
  The image directory and the log of image requests sent over the network (oldest
  first).
\<close>

record cache =
  files :: "string set"
  fetched :: "string list"

text \<open>
  The body of the \<open>try\<close>, for a URL that passed the guard.  A stream that breaks
  leaves the file it had opened.
\<close>

definition download_image_try :: "web \<Rightarrow> string \<Rightarrow> string \<Rightarrow> cache \<Rightarrow> (exn + string) \<times> cache" where
  "download_image_try w url ttl st =
     (let p = local_path w url ttl in
      if p \<notin> files st then
        (let st1 = st\<lparr>fetched := fetched st @ [url]\<rparr> in
         case image_get w (fetched st) url of
           NoResponse \<Rightarrow> (Inl ConnectionError, st1)
         | Response code complete \<Rightarrow>
             (case raise_for_status code of
                Inl x \<Rightarrow> (Inl x, st1)
              | Inr _ \<Rightarrow>
                  (let st2 = st1\<lparr>files := insert p (files st1)\<rparr> in
                   if complete then (Inr p, st2) else (Inl ConnectionError, st2))))
      else (Inr p, st))"

text \<open>The category is a parameter of the source function that its body never reads.\<close>

definition download_image :: "web \<Rightarrow> string option \<Rightarrow> string \<Rightarrow> string \<Rightarrow> cache \<Rightarrow> string option \<times> cache" where
  "download_image w url category ttl st =
     (case url of
        None \<Rightarrow> (None, st)
      | Some u \<Rightarrow>
          if u = [] then (None, st)
          else (case download_image_try w u ttl st of
                  (Inl x, st') \<Rightarrow> (None, st')
                | (Inr p, st') \<Rightarrow> (Some p, st')))"

subsection \<open>main\<close>

text \<open>A source is the pair of its \<open>type\<close> and its \<open>url\<close>.\<close>

type_synonym source_desc = "string \<times> string"

definition SOURCES :: "(string \<times> source_desc list) list" where
  "SOURCES =
     [(''docker'',
         [(''rss'', ''https://www.docker.com/blog/feed/''),
          (''rss'', ''https://docs.docker.com/release-notes/feed/''),
          (''url'', ''https://www.docker.com/blog/'')]),
      (''kubernetes'',
         [(''rss'', ''https://kubernetes.io/feed.xml''),
          (''rss'', ''https://www.cncf.io/feed/''),
          (''url'', ''https://kubernetes.io/blog/'')]),
      (''container'',
         [(''rss'', ''https://www.linkedin.com/company/docker/rss''),
          (''rss'', ''https://www.redhat.com/en/rss/blog/channel/kubernetes'')])]"

definition fetch_source :: "web \<Rightarrow> source_desc \<Rightarrow> article list" where
  "fetch_source w src =
     (if fst src = ''rss'' then fetch_rss_feed w (snd src) else fetch_website w (snd src))"

text \<open>The inner loop of \<open>main\<close> that downloads the image of each article.\<close>

fun download_images :: "web \<Rightarrow> string \<Rightarrow> article list \<Rightarrow> cache \<Rightarrow> article list \<times> cache" where
  "download_images w category [] st = ([], st)"
| "download_images w category (a # as) st =
     (let (a', st1) =
            (if truthy (image_url a) then
               (case download_image w (image_url a) category (title a) st of
                  (loc, st') \<Rightarrow> (if truthy loc then a\<lparr>local_image := loc\<rparr> else a, st'))
             else (a, st))
      in case download_images w category as st1 of
           (as', st2) \<Rightarrow> (a' # as', st2))"

text \<open>The loop over the sources of one category.\<close>

fun fetch_sources :: "web \<Rightarrow> string \<Rightarrow> source_desc list \<Rightarrow> cache \<Rightarrow> article list \<times> cache" where
  "fetch_sources w category [] st = ([], st)"
| "fetch_sources w category (src # srcs) st =
     (case download_images w category (fetch_source w src) st of
        (found, st1) \<Rightarrow>
          (case fetch_sources w category srcs st1 of
             (rest, st2) \<Rightarrow> (found @ rest, st2)))"

text \<open>
  The loop over the categories.  The result is \<open>all_articles\<close>: the articles written
  to \<open>data/<category>_news.json\<close>, category by category.
\<close>

fun fetch_categories :: "web \<Rightarrow> (string \<times> source_desc list) list \<Rightarrow> cache \<Rightarrow> (string \<times> article list) list \<times> cache" where
  "fetch_categories w [] st = ([], st)"
| "fetch_categories w ((category, srcs) # table) st =
     (case fetch_sources w category srcs st of
        (articles, st1) \<Rightarrow>
          (case fetch_categories w table st1 of
             (rest, st2) \<Rightarrow> ((category, articles) # rest, st2)))"

definition fetch_news_main :: "web \<Rightarrow> cache \<Rightarrow> (string \<times> article list) list \<times> cache" where
  "fetch_news_main w st = fetch_categories w SOURCES st"

text \<open>A source fails when the body of its \<open>try\<close> raises.\<close>

definition source_fails :: "web \<Rightarrow> source_desc \<Rightarrow> bool" where
  "source_fails w src =
     (if fst src = ''rss'' then isl (fetch_rss_feed_try w (snd src))
      else isl (fetch_website_try w (snd src)))"

definition fetch_source_printed :: "web \<Rightarrow> source_desc \<Rightarrow> warning list" where
  "fetch_source_printed w src =
     (if fst src = ''rss'' then fetch_rss_feed_printed w (snd src)
      else fetch_website_printed w (snd src))"

section \<open>generate_posts.py\<close>

text \<open>
  What this script takes from outside: the HTTP client, the chain from
  \<open>BeautifulSoup\<close> to \<open>html2text\<close> that turns the page into Markdown, the news files
  that \<open>fetch_news.py\<close> wrote, and the clock (\<open>post_clock c i k\<close> is the \<open>k\<close>-th
  reading made while the post of index \<open>i\<close> of category \<open>c\<close> is built).
\<close>

record site =
  page_get :: "string \<Rightarrow> exn + nat \<times> string"
  html_to_markdown :: "string \<Rightarrow> exn + string"
  news_file :: "string \<Rightarrow> exn + article list"
  post_clock :: "string \<Rightarrow> nat \<Rightarrow> nat \<Rightarrow> datetime"

definition NL :: string where
  "NL = [CHR 0x0A]"

subsection \<open>get_article_content\<close>

text \<open>\<open>str.splitlines\<close> on the ASCII line boundaries; CR LF is one boundary.\<close>

definition is_linebreak :: "char \<Rightarrow> bool" where
  "is_linebreak c = (c \<in> set [CHR 0x0A, CHR 0x0B, CHR 0x0C, CHR 0x0D,
                                CHR 0x1C, CHR 0x1D, CHR 0x1E])"

fun splitlines_from :: "string \<Rightarrow> string \<Rightarrow> string list" where
  "splitlines_from cur [] = (if cur = [] then [] else [rev cur])"
| "splitlines_from cur [c] = (if is_linebreak c then [rev cur] else [rev (c # cur)])"
| "splitlines_from cur (c # d # cs) =
     (if c = CHR 0x0D \<and> d = CHR 0x0A then rev cur # splitlines_from [] cs
      else if is_linebreak c then rev cur # splitlines_from [] (d # cs)
      else splitlines_from (c # cur) (d # cs))"

definition splitlines :: "string \<Rightarrow> string list" where
  "splitlines s = splitlines_from [] s"

fun join_lines :: "string list \<Rightarrow> string" where
  "join_lines [] = []"
| "join_lines [x] = x"
| "join_lines (x # y # ys) = x @ NL @ join_lines (y # ys)"

text \<open>The line that removes blank lines and trailing white space.\<close>

definition clean_markdown :: "string \<Rightarrow> string" where
  "clean_markdown md =
     join_lines (map rstrip (filter (\<lambda>l. strip l \<noteq> []) (splitlines md)))"

text \<open>
  The body of the \<open>try\<close>.  An article whose link is \<open>None\<close> makes \<open>requests.get\<close>
  raise before any request is sent.
\<close>

definition get_article_content_try :: "site \<Rightarrow> string option \<Rightarrow> exn + string" where
  "get_article_content_try w url =
     (case url of
        None \<Rightarrow> Inl MissingSchema
      | Some u \<Rightarrow>
          (case page_get w u of
             Inl x \<Rightarrow> Inl x
           | Inr (st, body) \<Rightarrow>
               (case raise_for_status st of
                  Inl x \<Rightarrow> Inl x
                | Inr _ \<Rightarrow>
                    (case html_to_markdown w body of
                       Inl x \<Rightarrow> Inl x
                     | Inr md \<Rightarrow> Inr (clean_markdown md)))))"

definition get_article_content :: "site \<Rightarrow> string option \<Rightarrow> string option" where
  "get_article_content w url =
     (case get_article_content_try w url of Inl x \<Rightarrow> None | Inr md \<Rightarrow> Some md)"

subsection \<open>generate_post_content\<close>

text \<open>The list \<open>tags\<close> that the function builds for the footer of the content.\<close>

definition footer_tags :: "string \<Rightarrow> string list" where
  "footer_tags cat =
     [cat, ''container'', ''cloud-native''] @
     (if cat = ''docker'' then [''containers'', ''dockerhub'', ''docker-compose'']
      else if cat = ''kubernetes'' then [''k8s'', ''cncf'', ''cloud-native'']
      else [])"

definition attribution :: "article \<Rightarrow> string \<Rightarrow> string" where
  "attribution a cat =
     NL @ NL @ ''---'' @ NL @ NL @ ''Source: ['' @ source a @ '']('' @ fmt (link a) @ '')'' @ NL @
     NL @ NL @ ''Category: '' @ capitalize cat @ NL @
     ''Tags: '' @ join_comma (footer_tags cat) @ NL"

definition generate_post_content :: "site \<Rightarrow> article \<Rightarrow> string \<Rightarrow> string" where
  "generate_post_content w a cat =
     (let full_content = get_article_content w (link a);
          post_content = (case full_content of
                            None \<Rightarrow> summary a
                          | Some md \<Rightarrow> if md = [] then summary a else md)
      in post_content @ attribution a cat)"

subsection \<open>format_post_title\<close>

definition format_post_title :: "string \<Rightarrow> string \<Rightarrow> datetime \<Rightarrow> string" where
  "format_post_title ttl cat now =
     (let prefixed = (if \<not> contains (lower cat) (lower ttl)
                      then capitalize cat @ '': '' @ ttl else ttl)
      in prefixed @ '' - '' @ strftime_human now)"

subsection \<open>create_post_from_article\<close>

text \<open>
  A post (a dict with these keys).  The last three keys are the ones that
  \<open>publish_to_wordpress.py\<close> adds after a successful publish.
\<close>

record post =
  post_id :: string
  post_title :: string
  content :: string
  excerpt :: string
  featured_image :: "string option"
  featured_image_url :: "string option"
  category :: string
  tags :: "string list"
  original_url :: "string option"
  created_at :: string
  wordpress_id :: "int option"
  wordpress_url :: "string option"
  published_at :: "string option"

text \<open>The f-string of the post ID.\<close>

definition make_post_id :: "string \<Rightarrow> nat \<Rightarrow> datetime \<Rightarrow> string" where
  "make_post_id cat index now = cat @ ''_'' @ str_nat index @ ''_'' @ strftime_stamp now"

text \<open>
  The clock is read for the title, then for the ID, then for \<open>created_at\<close>.  The post
  is also written to \<open>data/posts/<id>.json\<close>.
\<close>

definition create_post_from_article :: "site \<Rightarrow> article \<Rightarrow> string \<Rightarrow> nat \<Rightarrow> post" where
  "create_post_from_article w a cat index =
     \<lparr>post_id = make_post_id cat index (post_clock w cat index 1),
      post_title = format_post_title (title a) cat (post_clock w cat index 0),
      content = generate_post_content w a cat,
      excerpt = summary a,
      featured_image = local_image a,
      featured_image_url = image_url a,
      category = cat,
      tags = [cat, ''container'', ''cloud-native''],
      original_url = link a,
      created_at = strftime_iso (post_clock w cat index 2),
      wordpress_id = None, wordpress_url = None, published_at = None\<rparr>"

subsection \<open>main\<close>

text \<open>The loop over \<open>enumerate(articles[:3])\<close>.\<close>

fun create_posts :: "site \<Rightarrow> string \<Rightarrow> nat \<Rightarrow> article list \<Rightarrow> post list" where
  "create_posts w cat index [] = []"
| "create_posts w cat index (a # as) =
     create_post_from_article w a cat index # create_posts w cat (Suc index) as"

text \<open>
  The \<open>try\<close> of one category: a news file that cannot be loaded adds no post.
\<close>

definition category_posts :: "site \<Rightarrow> string \<Rightarrow> post list" where
  "category_posts w cat =
     (case news_file w cat of
        Inl x \<Rightarrow> []
      | Inr articles \<Rightarrow> create_posts w cat 0 (take 3 articles))"

text \<open>
  The loop over the categories.  The result is \<open>all_posts\<close>, written to
  \<open>data/posts.json\<close>.
\<close>

fun generate_categories :: "site \<Rightarrow> string list \<Rightarrow> post list" where
  "generate_categories w [] = []"
| "generate_categories w (cat # cats) = category_posts w cat @ generate_categories w cats"

definition generate_posts_main :: "site \<Rightarrow> post list" where
  "generate_posts_main w = generate_categories w [''docker'', ''kubernetes'', ''container'']"

section \<open>publish_to_wordpress.py\<close>

subsection \<open>The WordPress REST API\<close>

text \<open>The JSON document of the post that is created.\<close>

record post_data =
  pd_title :: string
  pd_content :: string
  pd_excerpt :: string
  pd_status :: string
  pd_categories :: "int list"
  pd_tags :: "int list"
  pd_featured_media :: "int option"

text \<open>
  What a request carries: nothing, the bytes of an image file (its path, and the file
  name of the \<open>Content-Disposition\<close> header), a JSON object with a name, or a post.
\<close>

datatype payload =
    NoBody
  | ImageData string string
  | NameJson string
  | PostJson post_data

text \<open>
  A request: method, URL, the user name and password that the \<open>Authorization\<close> header
  encodes, and the payload.
\<close>

record request =
  http_method :: string
  req_url :: string
  basic_auth :: "string \<times> string"
  req_payload :: payload

text \<open>
  The decoded body of a response, as far as the script reads it: the empty object, an
  object with keys, given by its \<open>id\<close> and \<open>link\<close> (\<open>None\<close> when absent or null),
  a list of terms with \<open>name\<close> and \<open>id\<close>, or a body on which
  \<open>response.json()\<close> or the script's accesses raise.
\<close>

datatype body =
    Undecodable
  | EmptyObject
  | JsonObject "int option" "string option"
  | TermList "(string \<times> int option) list"

text \<open>\<open>Fault\<close> is a request that raises; otherwise the status code and the body.\<close>

datatype response = Fault | Reply nat body

text \<open>
  What the script takes from outside: the environment variables, the remote site
  (which sees the requests made before), the image files that exist, and the clock
  (read after a post was created, given the requests made so far).
\<close>

record wordpress =
  environ :: "string \<Rightarrow> string option"
  remote :: "request list \<Rightarrow> request \<Rightarrow> response"
  image_files :: "string set"
  publish_clock :: "request list \<Rightarrow> datetime"

text \<open>Sending a request appends it to the log of requests.\<close>

definition send :: "wordpress \<Rightarrow> request \<Rightarrow> request list \<Rightarrow> response \<times> request list" where
  "send w rq log = (remote w log rq, log @ [rq])"

text \<open>Python truthiness of an optional number: \<open>None\<close> and \<open>0\<close> are falsy.\<close>

definition truthy_id :: "int option \<Rightarrow> bool" where
  "truthy_id i = (case i of None \<Rightarrow> False | Some n \<Rightarrow> n \<noteq> 0)"

text \<open>\<open>response.json().get('id')\<close>; \<open>Inl\<close> when it raises.\<close>

definition json_id :: "body \<Rightarrow> exn + int option" where
  "json_id b = (case b of
                  EmptyObject \<Rightarrow> Inr None
                | JsonObject i l \<Rightarrow> Inr i
                | TermList ts \<Rightarrow> Inl AttributeError
                | Undecodable \<Rightarrow> Inl JSONDecodeError)"

definition ok_status :: "nat \<Rightarrow> bool" where
  "ok_status code = (code = 201 \<or> code = 200)"

subsection \<open>upload_image_to_wordpress\<close>

definition upload_image_to_wordpress :: "wordpress \<Rightarrow> string \<Rightarrow> string \<Rightarrow> string \<Rightarrow> string \<Rightarrow> request list \<Rightarrow> int option \<times> request list" where
  "upload_image_to_wordpress w image_path api_url username password log =
     (if image_path \<notin> image_files w then (None, log)
      else
        (case send w \<lparr>http_method = ''POST'', req_url = api_url @ ''/wp/v2/media'',
                      basic_auth = (username, password),
                      req_payload = ImageData image_path (basename image_path)\<rparr> log of
           (Fault, log1) \<Rightarrow> (None, log1)
         | (Reply code b, log1) \<Rightarrow>
             if ok_status code then
               (case json_id b of Inl x \<Rightarrow> (None, log1) | Inr media_id \<Rightarrow> (media_id, log1))
             else (None, log1)))"

subsection \<open>get_or_create_category and get_or_create_tag\<close>

text \<open>
  The loop over the terms found: the first whose name matches without regard to case
  returns its \<open>id\<close>.  Over the empty object the loop has nothing to visit; over an
  object with keys it visits the keys, which are strings, and \<open>cat['name']\<close> raises.
\<close>

fun find_term :: "string \<Rightarrow> (string \<times> int option) list \<Rightarrow> int option option" where
  "find_term name [] = None"
| "find_term name ((n, i) # ts) = (if lower n = lower name then Some i else find_term name ts)"

text \<open>
  The two functions differ in the collection (\<open>categories\<close> or \<open>tags\<close>) and in the
  name they create (capitalised or lower-cased); their common text is
  \<open>get_or_create\<close>.
\<close>

definition get_or_create :: "wordpress \<Rightarrow> string \<Rightarrow> string \<Rightarrow> string \<Rightarrow> string \<Rightarrow> string \<Rightarrow> string \<Rightarrow> request list \<Rightarrow> int option \<times> request list" where
  "get_or_create w collection name new_name api_url username password log =
     (case send w \<lparr>http_method = ''GET'',
                   req_url = api_url @ ''/wp/v2/'' @ collection @ ''?search='' @ name,
                   basic_auth = (username, password), req_payload = NoBody\<rparr> log of
        (Fault, log1) \<Rightarrow> (None, log1)
      | (Reply code b, log1) \<Rightarrow>
          (case (if code = 200 then
                   (case b of
                      TermList ts \<Rightarrow> Inr (find_term name ts)
                    | EmptyObject \<Rightarrow> Inr None
                    | JsonObject i l \<Rightarrow> Inl TypeError
                    | Undecodable \<Rightarrow> Inl JSONDecodeError)
                 else Inr None) of
             Inl x \<Rightarrow> (None, log1)
           | Inr (Some found) \<Rightarrow> (found, log1)
           | Inr None \<Rightarrow>
               (case send w \<lparr>http_method = ''POST'',
                             req_url = api_url @ ''/wp/v2/'' @ collection,
                             basic_auth = (username, password),
                             req_payload = NameJson new_name\<rparr> log1 of
                  (Fault, log2) \<Rightarrow> (None, log2)
                | (Reply code2 b2, log2) \<Rightarrow>
                    if ok_status code2 then
                      (case json_id b2 of Inl x \<Rightarrow> (None, log2) | Inr i \<Rightarrow> (i, log2))
                    else (None, log2))))"

definition get_or_create_category :: "wordpress \<Rightarrow> string \<Rightarrow> string \<Rightarrow> string \<Rightarrow> string \<Rightarrow> request list \<Rightarrow> int option \<times> request list" where
  "get_or_create_category w category_name api_url username password log =
     get_or_create w ''categories'' category_name (capitalize category_name)
       api_url username password log"

definition get_or_create_tag :: "wordpress \<Rightarrow> string \<Rightarrow> string \<Rightarrow> string \<Rightarrow> string \<Rightarrow> request list \<Rightarrow> int option \<times> request list" where
  "get_or_create_tag w tag_name api_url username password log =
     get_or_create w ''tags'' tag_name (lower tag_name) api_url username password log"

subsection \<open>publish_post_to_wordpress\<close>

text \<open>The loop that resolves the tags; a tag without a truthy ID is left out.\<close>

fun tag_ids :: "wordpress \<Rightarrow> string list \<Rightarrow> string \<Rightarrow> string \<Rightarrow> string \<Rightarrow> request list \<Rightarrow> int list \<times> request list" where
  "tag_ids w [] api_url username password log = ([], log)"
| "tag_ids w (t # ts) api_url username password log =
     (case get_or_create_tag w t api_url username password log of
        (tag_id, log1) \<Rightarrow>
          (case tag_ids w ts api_url username password log1 of
             (ids, log2) \<Rightarrow>
               ((case tag_id of
                   None \<Rightarrow> ids
                 | Some i \<Rightarrow> if i \<noteq> 0 then i # ids else ids), log2)))"

text \<open>
  Everything before the request that creates the post: the upload of the featured
  image, the category, the tags and the post data.  None of these steps raises.
\<close>

definition prepare_post :: "wordpress \<Rightarrow> post \<Rightarrow> string \<Rightarrow> string \<Rightarrow> string \<Rightarrow> request list \<Rightarrow> post_data \<times> request list" where
  "prepare_post w p api_url username password log =
     (case (case featured_image p of
              None \<Rightarrow> (None, log)
            | Some path \<Rightarrow>
                if path \<noteq> [] \<and> path \<in> image_files w
                then upload_image_to_wordpress w path api_url username password log
                else (None, log)) of
        (featured_media_id, log1) \<Rightarrow>
          (case get_or_create_category w (category p) api_url username password log1 of
             (category_id, log2) \<Rightarrow>
               (case tag_ids w (tags p) api_url username password log2 of
                  (ids, log3) \<Rightarrow>
                    (\<lparr>pd_title = post_title p, pd_content = content p,
                      pd_excerpt = excerpt p, pd_status = ''publish'',
                      pd_categories = (case category_id of
                                         None \<Rightarrow> []
                                       | Some c \<Rightarrow> if c \<noteq> 0 then [c] else []),
                      pd_tags = ids,
                      pd_featured_media = (if truthy_id featured_media_id
                                           then featured_media_id else None)\<rparr>,
                     log3))))"

definition create_request :: "string \<Rightarrow> string \<Rightarrow> string \<Rightarrow> post_data \<Rightarrow> request" where
  "create_request api_url username password pd =
     \<lparr>http_method = ''POST'', req_url = api_url @ ''/wp/v2/posts'',
      basic_auth = (username, password), req_payload = PostJson pd\<rparr>"

text \<open>
  The result is the returned boolean, the post (updated in place on success) and the
  log of requests.  A response whose body cannot be read raises after the post was
  created, and the handler returns \<open>False\<close>.  On success the updated post is also
  written to \<open>data/posts/<id>.json\<close>.
\<close>

definition publish_post_to_wordpress :: "wordpress \<Rightarrow> post \<Rightarrow> string \<Rightarrow> string \<Rightarrow> string \<Rightarrow> request list \<Rightarrow> (bool \<times> post) \<times> request list" where
  "publish_post_to_wordpress w p api_url username password log =
     (case prepare_post w p api_url username password log of
        (pd, log1) \<Rightarrow>
          (case send w (create_request api_url username password pd) log1 of
             (Fault, log2) \<Rightarrow> ((False, p), log2)
           | (Reply code b, log2) \<Rightarrow>
               if ok_status code then
                 (case b of
                    JsonObject wp_post_id wp_post_url \<Rightarrow>
                      ((True, p\<lparr>wordpress_id := wp_post_id, wordpress_url := wp_post_url,
                                published_at := Some (strftime_iso (publish_clock w log2))\<rparr>),
                       log2)
                  | EmptyObject \<Rightarrow>
                      ((True, p\<lparr>wordpress_id := None, wordpress_url := None,
                                published_at := Some (strftime_iso (publish_clock w log2))\<rparr>),
                       log2)
                  | TermList ts \<Rightarrow> ((False, p), log2)
                  | Undecodable \<Rightarrow> ((False, p), log2))
               else ((False, p), log2)))"

subsection \<open>main\<close>

text \<open>
  A JSON document, as \<open>json.load\<close> returns it and \<open>json.dump\<close> writes it.  An
  object is the list of its keys and values in order, each key once; numbers are the
  integers.
\<close>

datatype json =
    JNull
  | JBool bool
  | JNum int
  | JStr string
  | JArr "json list"
  | JObj "(string \<times> json) list"

definition json_opt :: "string option \<Rightarrow> json" where
  "json_opt s = (case s of None \<Rightarrow> JNull | Some v \<Rightarrow> JStr v)"

text \<open>The JSON object that \<open>json.dump\<close> writes for a published post.\<close>

definition post_json :: "post \<Rightarrow> json" where
  "post_json p =
     JObj [(''id'', JStr (post_id p)),
           (''title'', JStr (post_title p)),
           (''content'', JStr (content p)),
           (''excerpt'', JStr (excerpt p)),
           (''featured_image'', json_opt (featured_image p)),
           (''featured_image_url'', json_opt (featured_image_url p)),
           (''category'', JStr (category p)),
           (''tags'', JArr (map JStr (tags p))),
           (''original_url'', json_opt (original_url p)),
           (''created_at'', JStr (created_at p)),
           (''wordpress_id'', (case wordpress_id p of None \<Rightarrow> JNull | Some n \<Rightarrow> JNum n)),
           (''wordpress_url'', json_opt (wordpress_url p)),
           (''published_at'', json_opt (published_at p))]"

text \<open>
  The file \<open>data/published_posts.json\<close>: absent, present with a text that
  \<open>json.load\<close> cannot decode, or present with a JSON document.
\<close>

datatype ledger_file = Missing | Undecoded | Content json

text \<open>
  What a \<open>for\<close> loop and \<open>list.extend\<close> visit in a loaded document: the elements
  of a list, the keys of an object, the characters of a string; any other value is not
  iterable.
\<close>

definition iterate :: "json \<Rightarrow> exn + json list" where
  "iterate v =
     (case v of
        JArr xs \<Rightarrow> Inr xs
      | JObj kvs \<Rightarrow> Inr (map (\<lambda>kv. JStr (fst kv)) kvs)
      | JStr s \<Rightarrow> Inr (map (\<lambda>c. JStr [c]) s)
      | JNull \<Rightarrow> Inl TypeError
      | JBool b \<Rightarrow> Inl TypeError
      | JNum n \<Rightarrow> Inl TypeError)"

text \<open>
  \<open>post.get('id')\<close> on one visited value, put into a set: only an object has
  \<open>get\<close>, a missing key gives \<open>None\<close>, and a list or an object cannot be hashed.
\<close>

definition get_id :: "json \<Rightarrow> exn + json" where
  "get_id x =
     (case x of
        JObj kvs \<Rightarrow>
          (case map_of kvs ''id'' of
             None \<Rightarrow> Inr JNull
           | Some v \<Rightarrow>
               (case v of
                  JArr xs \<Rightarrow> Inl TypeError
                | JObj inner \<Rightarrow> Inl TypeError
                | JNull \<Rightarrow> Inr v
                | JBool b \<Rightarrow> Inr v
                | JNum n \<Rightarrow> Inr v
                | JStr s \<Rightarrow> Inr v))
      | JNull \<Rightarrow> Inl AttributeError
      | JBool b \<Rightarrow> Inl AttributeError
      | JNum n \<Rightarrow> Inl AttributeError
      | JStr s \<Rightarrow> Inl AttributeError
      | JArr xs \<Rightarrow> Inl AttributeError)"

fun collect_ids :: "json list \<Rightarrow> exn + json list" where
  "collect_ids [] = Inr []"
| "collect_ids (x # xs) =
     (case get_id x of
        Inl e \<Rightarrow> Inl e
      | Inr i \<Rightarrow> (case collect_ids xs of Inl e \<Rightarrow> Inl e | Inr ids \<Rightarrow> Inr (i # ids)))"

text \<open>
  The IDs of the posts are strings, and a string is equal to no other JSON value: of
  the IDs collected, the strings are the ones that the test of the loop can find.
\<close>

fun string_ids :: "json list \<Rightarrow> string list" where
  "string_ids [] = []"
| "string_ids (JStr s # xs) = s # string_ids xs"
| "string_ids (JNull # xs) = string_ids xs"
| "string_ids (JBool b # xs) = string_ids xs"
| "string_ids (JNum n # xs) = string_ids xs"
| "string_ids (JArr ys # xs) = string_ids xs"
| "string_ids (JObj kvs # xs) = string_ids xs"

text \<open>
  The first load of \<open>main\<close>: the IDs in \<open>published_post_ids\<close> when the loop starts.
  The set stays empty when the file is absent and when anything in the \<open>try\<close> raises.
\<close>

definition ledger_ids :: "ledger_file \<Rightarrow> string list" where
  "ledger_ids l =
     (case l of
        Missing \<Rightarrow> []
      | Undecoded \<Rightarrow> []
      | Content v \<Rightarrow>
          (case iterate v of
             Inl e \<Rightarrow> []
           | Inr xs \<Rightarrow> (case collect_ids xs of Inl e \<Rightarrow> [] | Inr ids \<Rightarrow> string_ids ids)))"

text \<open>
  The file read for what it holds, whether or not \<open>main\<close> can load it: the entries of
  a ledger file that is a list, and the string IDs of the entries that are objects.
\<close>

definition ledger_items :: "ledger_file \<Rightarrow> json list" where
  "ledger_items l =
     (case l of
        Missing \<Rightarrow> []
      | Undecoded \<Rightarrow> []
      | Content v \<Rightarrow>
          (case v of
             JArr xs \<Rightarrow> xs
           | JNull \<Rightarrow> [] | JBool b \<Rightarrow> [] | JNum n \<Rightarrow> [] | JStr s \<Rightarrow> []
           | JObj kvs \<Rightarrow> []))"

definition entry_key :: "json \<Rightarrow> string option" where
  "entry_key x =
     (case x of
        JObj kvs \<Rightarrow>
          (case map_of kvs ''id'' of
             None \<Rightarrow> None
           | Some v \<Rightarrow>
               (case v of
                  JStr s \<Rightarrow> Some s
                | JNull \<Rightarrow> None | JBool b \<Rightarrow> None | JNum n \<Rightarrow> None
                | JArr xs \<Rightarrow> None | JObj inner \<Rightarrow> None))
      | JNull \<Rightarrow> None | JBool b \<Rightarrow> None | JNum n \<Rightarrow> None | JStr s \<Rightarrow> None
      | JArr xs \<Rightarrow> None)"

definition held_ids :: "ledger_file \<Rightarrow> string list" where
  "held_ids l = List.map_filter entry_key (ledger_items l)"

text \<open>
  A ledger file as the script leaves it: absent, or a list whose entries are objects
  with a string ID.
\<close>

definition well_formed :: "ledger_file \<Rightarrow> bool" where
  "well_formed l =
     (case l of
        Missing \<Rightarrow> True
      | Undecoded \<Rightarrow> False
      | Content v \<Rightarrow>
          (case v of
             JArr xs \<Rightarrow> list_all (\<lambda>x. entry_key x \<noteq> None) xs
           | JNull \<Rightarrow> False | JBool b \<Rightarrow> False | JNum n \<Rightarrow> False | JStr s \<Rightarrow> False
           | JObj kvs \<Rightarrow> False))"

text \<open>
  How a run ends: with the message about the credentials, with the message that the
  posts could not be loaded, or with the count that the last line prints.
\<close>

datatype outcome = CredentialsMissing | PostsNotLoaded exn | Published nat

text \<open>
  What a run did: how it ended, the requests it sent, the calls of
  \<open>publish_post_to_wordpress\<close> in order (the post passed and the boolean returned),
  and the ledger file when the run is over.
\<close>

record run =
  outcome :: outcome
  requests :: "request list"
  attempts :: "(post \<times> bool) list"
  ledger_after :: ledger_file

text \<open>The variables of the publishing loop.\<close>

record loop_state =
  published_post_ids :: "string set"
  newly_published :: "post list"
  sent :: "request list"
  calls :: "(post \<times> bool) list"

fun publish_loop :: "wordpress \<Rightarrow> string \<Rightarrow> string \<Rightarrow> string \<Rightarrow> post list \<Rightarrow> loop_state \<Rightarrow> loop_state" where
  "publish_loop w api_url username password [] s = s"
| "publish_loop w api_url username password (p # ps) s =
     (if post_id p \<notin> published_post_ids s then
        (case publish_post_to_wordpress w p api_url username password (sent s) of
           ((success, p'), log) \<Rightarrow>
             publish_loop w api_url username password ps
               (if success then
                  s\<lparr>published_post_ids := insert (post_id p) (published_post_ids s),
                    newly_published := newly_published s @ [p'],
                    sent := log, calls := calls s @ [(p, success)]\<rparr>
                else s\<lparr>sent := log, calls := calls s @ [(p, success)]\<rparr>))
      else publish_loop w api_url username password ps s)"

text \<open>\<open>wp_api_url.rstrip('/')\<close> and the normalisation of the API URL.\<close>

definition rstrip_slash :: "string \<Rightarrow> string" where
  "rstrip_slash s = rev (dropWhile (\<lambda>c. c = CHR ''/'') (rev s))"

definition normalize_api_url :: "string \<Rightarrow> string" where
  "normalize_api_url u = (if suffix ''/wp-json'' u then u else rstrip_slash u @ ''/wp-json'')"

text \<open>
  The update of the ledger file, with the second load of \<open>main\<close>: the file is loaded
  again in a \<open>try\<close> of its own, and what \<open>extend\<close> visits in the document is
  appended to the new posts; when that raises, the new posts are written alone.
  \<open>all_published_posts\<close> is the list \<open>newly_published\<close> itself, so the count printed
  last is the length of the extended list.
\<close>

definition update_ledger :: "post list \<Rightarrow> ledger_file \<Rightarrow> ledger_file \<times> nat" where
  "update_ledger new l =
     (if new \<noteq> [] then
        (case l of
           Missing \<Rightarrow> (Content (JArr (map post_json new)), length new)
         | Undecoded \<Rightarrow> (Content (JArr (map post_json new)), length new)
         | Content v \<Rightarrow>
             (case iterate v of
                Inl e \<Rightarrow> (Content (JArr (map post_json new)), length new)
              | Inr existing \<Rightarrow>
                  (Content (JArr (map post_json new @ existing)),
                   length new + length existing)))
      else (l, 0))"

text \<open>
  \<open>main\<close>, given the content of \<open>data/posts.json\<close> (\<open>Inl\<close> when loading it raises)
  and the ledger file.
\<close>

definition publish_main :: "wordpress \<Rightarrow> exn + post list \<Rightarrow> ledger_file \<Rightarrow> run" where
  "publish_main w posts_file l =
     (let wp_username = environ w ''WP_USERNAME'';
          wp_password = environ w ''WP_PASSWORD'';
          wp_api_url = environ w ''WP_API_URL''
      in if \<not> (truthy wp_username \<and> truthy wp_password \<and> truthy wp_api_url) then
           \<lparr>outcome = CredentialsMissing, requests = [], attempts = [], ledger_after = l\<rparr>
         else
           (case posts_file of
              Inl x \<Rightarrow>
                \<lparr>outcome = PostsNotLoaded x, requests = [], attempts = [], ledger_after = l\<rparr>
            | Inr all_posts \<Rightarrow>
                (let s = publish_loop w (normalize_api_url (fmt wp_api_url))
                           (fmt wp_username) (fmt wp_password) all_posts
                           \<lparr>published_post_ids = set (ledger_ids l), newly_published = [],
                            sent = [], calls = []\<rparr>;
                     (l', n) = update_ledger (newly_published s) l
                 in \<lparr>outcome = Published n, requests = sent s, attempts = calls s,
                     ledger_after = l'\<rparr>)))"

text \<open>
  Runs one after the other, each with its own environment and its own
  \<open>data/posts.json\<close>; the ledger file of one run is the ledger file the next run finds.
\<close>

fun publish_runs :: "(wordpress \<times> (exn + post list)) list \<Rightarrow> ledger_file \<Rightarrow> ledger_file" where
  "publish_runs [] l = l"
| "publish_runs ((w, posts_file) # rs) l =
     publish_runs rs (ledger_after (publish_main w posts_file l))"

text \<open>The three credentials are present.\<close>

definition configured :: "wordpress \<Rightarrow> bool" where
  "configured w = (truthy (environ w ''WP_USERNAME'') \<and> truthy (environ w ''WP_PASSWORD'') \<and>
                   truthy (environ w ''WP_API_URL''))"

section \<open>Sample inputs\<close>

text \<open>Concrete inputs on which the theorems below are exercised.\<close>

definition sample_time :: datetime where
  "sample_time = \<lparr>year = 2024, month = 1, day = 2, hour = 3, minute = 4, second = 5\<rparr>"

definition sample_entry :: entry where
  "sample_entry =
     \<lparr>entry_title = Some ''Docker 24 released'',
      entry_link = Some ''https://docker.com/blog/a'',
      entry_published = Some ''Tue, 02 Jan 2024 03:04:05 GMT'',
      entry_summary = Some ''Release notes'',
      media_content = None, entry_content = None\<rparr>"

text \<open>
  A web where one feed has twelve entries, every page request fails, and every image
  request is answered in full.  The digest is a stand-in of the right length.
\<close>

definition sample_web :: web where
  "sample_web =
     \<lparr>feedparser_parse =
        (\<lambda>u. if u = ''https://good/feed'' then Inr (replicate 12 sample_entry)
             else Inl ParseError),
      requests_get = (\<lambda>u. Inl ConnectionError),
      page_blocks = (\<lambda>h. Inr []),
      find_img = (\<lambda>h. None),
      urljoin = (\<lambda>b u. b @ u),
      unquote = (\<lambda>u. u),
      md5_hexdigest = (\<lambda>s. ''8b1a9953c4611296a827abf8c47804d7''),
      image_get = (\<lambda>log u. Response 200 True),
      clock = (\<lambda>u k. sample_time)\<rparr>"

definition empty_cache :: cache where
  "empty_cache = \<lparr>files = {}, fetched = []\<rparr>"

definition sample_article :: article where
  "sample_article =
     \<lparr>title = ''Docker 24 released'', link = Some ''https://docker.com/blog/a'',
      published = ''2024-01-02 03:04:05'', summary = ''Release notes'',
      image_url = None, source = ''https://www.docker.com/blog/feed/'',
      local_image = None\<rparr>"

text \<open>A site where no page can be fetched; only the docker news file exists.\<close>

definition sample_site :: site where
  "sample_site =
     \<lparr>page_get = (\<lambda>u. Inl ConnectionError),
      html_to_markdown = (\<lambda>h. Inr h),
      news_file = (\<lambda>c. if c = ''docker'' then Inr [sample_article] else Inl OSError),
      post_clock = (\<lambda>c i k. sample_time)\<rparr>"

definition sample_post :: post where
  "sample_post = create_post_from_article sample_site sample_article ''docker'' 0"

text \<open>A configured WordPress site that cannot be reached.\<close>

definition sample_wordpress :: wordpress where
  "sample_wordpress =
     \<lparr>environ = (\<lambda>v. if v = ''WP_USERNAME'' then Some ''editor''
                     else if v = ''WP_PASSWORD'' then Some ''secret''
                     else if v = ''WP_API_URL'' then Some ''https://blog.example''
                     else None),
      remote = (\<lambda>log rq. Fault),
      image_files = {},
      publish_clock = (\<lambda>log. sample_time)\<rparr>"

section \<open>Properties of fetch_news.py\<close>

subsection \<open>At most ten items per source\<close>

lemma rss_articles_length:
  "rss_articles w url k es = Inr as \<Longrightarrow> length as = length es"
  by (induction es arbitrary: k as) (auto split: sum.splits)

lemma website_articles_length:
  "length (website_articles w url k bs) \<le> length bs"
proof (induction bs arbitrary: k)
  case Nil
  then show ?case by simp
next
  case (Cons b bs)
  have "length (website_articles w url (Suc k) bs) \<le> length bs"
    and "length (website_articles w url k bs) \<le> length bs"
    by (rule Cons.IH)+
  then show ?case by (simp split: option.splits)
qed

lemma fetch_rss_feed_length: "length (fetch_rss_feed w url) \<le> 10"
  by (auto simp: fetch_rss_feed_def fetch_rss_feed_try_def split: sum.splits
      dest!: rss_articles_length)

lemma fetch_website_length: "length (fetch_website w url) \<le> 10"
proof -
  have "length (website_articles w url 0 (take 10 bs)) \<le> 10" for bs
    using website_articles_length [of w url 0 "take 10 bs"] by simp
  then show ?thesis
    by (auto simp: fetch_website_def fetch_website_try_def split: sum.splits prod.splits)
qed

text \<open>
  Claim C4.  Whatever the feed or the page holds, the list of articles returned for a
  source has at most ten elements: for \<open>fetch_rss_feed\<close>, for \<open>fetch_website\<close>, and
  for the dispatch of \<open>main\<close> on the type of the source.
\<close>

theorem source_items_at_most_ten:
  "length (fetch_source w src) \<le> 10 \<and> length (fetch_rss_feed w url) \<le> 10 \<and>
   length (fetch_website w url) \<le> 10"
  by (simp add: fetch_source_def fetch_rss_feed_length fetch_website_length)

text \<open>A feed of twelve entries gives ten articles.\<close>

lemma sample_feed_articles:
  "rss_articles sample_web u k (replicate n sample_entry) =
   Inr (replicate n \<lparr>title = ''Docker 24 released'', link = Some ''https://docker.com/blog/a'',
                     published = ''Tue, 02 Jan 2024 03:04:05 GMT'', summary = ''Release notes'',
                     image_url = None, source = u, local_image = None\<rparr>)"
  by (induction n arbitrary: k)
     (simp_all add: rss_article_def sample_entry_def entry_image_def sample_web_def truthy_def)

theorem source_items_at_most_ten_witness:
  "length (fetch_rss_feed sample_web ''https://good/feed'') = 10 \<and>
   length (fetch_source sample_web (''rss'', ''https://good/feed'')) \<le> 10"
proof -
  have "take 10 (replicate 12 sample_entry) = replicate 10 sample_entry" by simp
  then have "fetch_rss_feed_try sample_web ''https://good/feed'' =
             rss_articles sample_web ''https://good/feed'' 0 (replicate 10 sample_entry)"
    by (simp add: fetch_rss_feed_try_def sample_web_def)
  then have "length (fetch_rss_feed sample_web ''https://good/feed'') = 10"
    by (simp add: fetch_rss_feed_def sample_feed_articles)
  then show ?thesis
    using source_items_at_most_ten [of sample_web "(''rss'', ''https://good/feed'')"]
    by simp
qed

subsection \<open>A failing source is isolated\<close>

lemma fetch_source_fails: "source_fails w src \<Longrightarrow> fetch_source w src = []"
  by (cases "fst src = ''rss''")
     (auto simp: source_fails_def fetch_source_def fetch_rss_feed_def fetch_website_def
      split: sum.splits)

lemma source_fails_printed:
  "source_fails w src \<Longrightarrow> \<exists>msg x. fetch_source_printed w src = [Warning msg (snd src) x]"
  by (cases "fst src = ''rss''")
     (auto simp: source_fails_def fetch_source_printed_def fetch_rss_feed_printed_def
      fetch_website_printed_def split: sum.splits)

lemma fetch_sources_append:
  "fetch_sources w c (xs @ ys) st =
     (case fetch_sources w c xs st of
        (as, st1) \<Rightarrow> (case fetch_sources w c ys st1 of (bs, st2) \<Rightarrow> (as @ bs, st2)))"
  by (induction xs arbitrary: st) (auto split: prod.splits)

lemma fetch_sources_skip:
  "source_fails w src \<Longrightarrow>
   fetch_sources w c (pre @ src # post) st = fetch_sources w c (pre @ post) st"
  by (simp add: fetch_sources_append fetch_source_fails split: prod.splits)

lemma fetch_categories_append:
  "fetch_categories w (xs @ ys) st =
     (case fetch_categories w xs st of
        (as, st1) \<Rightarrow> (case fetch_categories w ys st1 of (bs, st2) \<Rightarrow> (as @ bs, st2)))"
  by (induction xs arbitrary: st) (auto split: prod.splits)

lemma fetch_categories_skip:
  "source_fails w src \<Longrightarrow>
   fetch_categories w (t1 @ (c, pre @ src # post) # t2) st =
   fetch_categories w (t1 @ (c, pre @ post) # t2) st"
  by (simp add: fetch_categories_append fetch_sources_skip split: prod.splits)

text \<open>What makes a source fail, in terms of the outside world.\<close>

lemma rss_source_fails_iff:
  "source_fails w (''rss'', u) \<longleftrightarrow>
   (case feedparser_parse w u of
      Inl x \<Rightarrow> True
    | Inr es \<Rightarrow> isl (rss_articles w u 0 (take 10 es)))"
  by (simp add: source_fails_def fetch_rss_feed_try_def split: sum.splits)

lemma url_source_fails_iff:
  "source_fails w (''url'', u) \<longleftrightarrow>
   (case requests_get w u of
      Inl x \<Rightarrow> True
    | Inr (code, html) \<Rightarrow> (400 \<le> code \<and> code < 600) \<or> isl (page_blocks w html))"
  by (auto simp: source_fails_def fetch_website_try_def raise_for_status_def
      split: sum.splits prod.splits)

text \<open>
  Claim C5.  When fetching or parsing a source raises, the reader returns the empty
  list and prints one warning that names the source; the run goes on, and the
  articles and the image cache that the loops over the sources and over the
  categories produce are those of the same run without that source.
\<close>

theorem failed_source_is_isolated:
  assumes "source_fails w src"
  shows "fetch_source w src = [] \<and>
         (\<exists>msg x. fetch_source_printed w src = [Warning msg (snd src) x]) \<and>
         fetch_sources w c (pre @ src # post) st = fetch_sources w c (pre @ post) st \<and>
         fetch_categories w (t1 @ (c, pre @ src # post) # t2) st =
           fetch_categories w (t1 @ (c, pre @ post) # t2) st"
  using assms
  by (simp add: fetch_source_fails source_fails_printed fetch_sources_skip
      fetch_categories_skip)

theorem failed_source_is_isolated_witness:
  "source_fails sample_web (''url'', ''https://www.docker.com/blog/'') \<and>
   fetch_source sample_web (''url'', ''https://www.docker.com/blog/'') = [] \<and>
   fetch_sources sample_web ''docker''
     [(''rss'', ''https://good/feed''), (''url'', ''https://www.docker.com/blog/'')]
     empty_cache =
   fetch_sources sample_web ''docker'' [(''rss'', ''https://good/feed'')] empty_cache"
proof -
  have h: "source_fails sample_web (''url'', ''https://www.docker.com/blog/'')"
    by (simp add: url_source_fails_iff sample_web_def)
  show ?thesis
    using h failed_source_is_isolated [OF h, of "''docker''" "[(''rss'', ''https://good/feed'')]"
        "[]" empty_cache]
    by simp
qed

subsection \<open>The image cache\<close>





lemma download_image_try_fails_iff:
  "isl (fst (download_image_try w u t st)) \<longleftrightarrow>
   local_path w u t \<notin> files st \<and>
   (case image_get w (fetched st) u of
      NoResponse \<Rightarrow> True
    | Response code complete \<Rightarrow> (400 \<le> code \<and> code < 600) \<or> \<not> complete)"
  by (auto simp: download_image_try_def Let_def raise_for_status_def
      split: image_reply.splits sum.splits if_splits)





lemma download_image_absent:
  "url = None \<or> url = Some [] \<Longrightarrow> download_image w url c t st = (None, st)"
  by (auto simp: download_image_def)

lemma download_image_failure:
  "u \<noteq> [] \<Longrightarrow> isl (fst (download_image_try w u t st)) \<Longrightarrow>
   fst (download_image w (Some u) c t st) = None"
  by (auto simp: download_image_def split: prod.splits sum.splits)

text \<open>
  Claim C10.  For a URL that is \<open>None\<close> or empty, \<open>download_image\<close> returns \<open>None\<close>
  at once: the cache and the log of requests are unchanged.  For a non-empty URL,
  whenever the body of the \<open>try\<close> raises (no response, a status from 400 to 599, or
  a stream that breaks) the result is \<open>None\<close>.  The function returns an optional
  path in every case, so nothing is raised to the caller.
\<close>

theorem download_image_never_raises:
  "(url = None \<or> url = Some [] \<longrightarrow> download_image w url c t st = (None, st)) \<and>
   (u \<noteq> [] \<and> isl (fst (download_image_try w u t st)) \<longrightarrow>
      fst (download_image w (Some u) c t st) = None) \<and>
   (u \<noteq> [] \<and> local_path w u t \<notin> files st \<and>
    (image_get w (fetched st) u = NoResponse \<or>
     (\<exists>code complete. image_get w (fetched st) u = Response code complete \<and>
        ((400 \<le> code \<and> code < 600) \<or> \<not> complete))) \<longrightarrow>
      fst (download_image w (Some u) c t st) = None)"
proof -
  have "fst (download_image w (Some u) c t st) = None"
    if "u \<noteq> []" "local_path w u t \<notin> files st"
       "image_get w (fetched st) u = NoResponse \<or>
        (\<exists>code complete. image_get w (fetched st) u = Response code complete \<and>
           ((400 \<le> code \<and> code < 600) \<or> \<not> complete))"
  proof -
    have "isl (fst (download_image_try w u t st))"
      using that(2,3) by (auto simp: download_image_try_fails_iff)
    with that(1) show ?thesis by (rule download_image_failure)
  qed
  then show ?thesis
    using download_image_absent [of url w c t st] download_image_failure [of u w t st c]
    by blast
qed

theorem download_image_never_raises_witness:
  "download_image sample_web None ''docker'' ''Hello'' empty_cache = (None, empty_cache) \<and>
   download_image sample_web (Some []) ''docker'' ''Hello'' empty_cache = (None, empty_cache) \<and>
   fst (download_image (sample_web\<lparr>image_get := \<lambda>log u. NoResponse\<rparr>)
          (Some ''https://x.com/img.png?v=2'') ''docker'' ''Hello'' empty_cache) = None \<and>
   fst (download_image (sample_web\<lparr>image_get := \<lambda>log u. Response 404 True\<rparr>)
          (Some ''https://x.com/img.png?v=2'') ''docker'' ''Hello'' empty_cache) = None"
proof -
  have a: "download_image sample_web None ''docker'' ''Hello'' empty_cache = (None, empty_cache)"
    using download_image_never_raises [of None sample_web "''docker''" "''Hello''" empty_cache]
    by simp
  have b: "download_image sample_web (Some []) ''docker'' ''Hello'' empty_cache =
           (None, empty_cache)"
    using download_image_never_raises [of "Some []" sample_web "''docker''" "''Hello''"
        empty_cache]
    by simp
  have c: "fst (download_image (sample_web\<lparr>image_get := \<lambda>log u. NoResponse\<rparr>)
          (Some ''https://x.com/img.png?v=2'') ''docker'' ''Hello'' empty_cache) = None"
    using download_image_never_raises [of None "sample_web\<lparr>image_get := \<lambda>log u. NoResponse\<rparr>"
        "''docker''" "''Hello''" empty_cache "''https://x.com/img.png?v=2''"]
    by (simp add: empty_cache_def)
  have d: "fst (download_image (sample_web\<lparr>image_get := \<lambda>log u. Response 404 True\<rparr>)
          (Some ''https://x.com/img.png?v=2'') ''docker'' ''Hello'' empty_cache) = None"
    using download_image_never_raises [of None
        "sample_web\<lparr>image_get := \<lambda>log u. Response 404 True\<rparr>"
        "''docker''" "''Hello''" empty_cache "''https://x.com/img.png?v=2''"]
    by (auto simp: empty_cache_def)
  from a b c d show ?thesis by simp
qed

section \<open>Properties of generate_posts.py\<close>

subsection \<open>The post ID\<close>

lemma str_nat_small: "k < 10 \<Longrightarrow> str_nat k = [digit k]"
  by (simp add: str_nat.simps)

lemma post_id_create:
  "post_id (create_post_from_article w a cat i) = make_post_id cat i (post_clock w cat i 1)"
  by (simp add: create_post_from_article_def)

text \<open>
  Claim C2, as the code has it.  The ID of a post is the category, the position of the
  item in the batch and the clock reading, joined by underscores.  Two calls that agree
  on these three give the same ID whatever the two articles and their links are; the
  link is not read.
\<close>

theorem post_id_from_position_and_time:
  "post_id (create_post_from_article w a cat i) =
     cat @ ''_'' @ str_nat i @ ''_'' @ strftime_stamp (post_clock w cat i 1) \<and>
   (post_clock w cat i 1 = post_clock w' cat i 1 \<longrightarrow>
      post_id (create_post_from_article w a cat i) =
      post_id (create_post_from_article w' b cat i))"
  by (simp add: post_id_create make_post_id_def)

theorem post_id_from_position_and_time_witness:
  "link sample_article \<noteq> link (sample_article\<lparr>link := Some ''https://kubernetes.io/blog/b''\<rparr>) \<and>
   post_id (create_post_from_article sample_site sample_article ''docker'' 0) =
   post_id (create_post_from_article (sample_site\<lparr>page_get := \<lambda>u. Inr (200, ''<p>x</p>'')\<rparr>)
              (sample_article\<lparr>link := Some ''https://kubernetes.io/blog/b''\<rparr>) ''docker'' 0)"
proof -
  have "post_clock sample_site ''docker'' 0 1 =
        post_clock (sample_site\<lparr>page_get := \<lambda>u. Inr (200, ''<p>x</p>'')\<rparr>) ''docker'' 0 1"
    by simp
  then have "post_id (create_post_from_article sample_site sample_article ''docker'' 0) =
     post_id (create_post_from_article (sample_site\<lparr>page_get := \<lambda>u. Inr (200, ''<p>x</p>'')\<rparr>)
                (sample_article\<lparr>link := Some ''https://kubernetes.io/blog/b''\<rparr>) ''docker'' 0)"
    using post_id_from_position_and_time [of sample_site sample_article "''docker''" 0
        "sample_site\<lparr>page_get := \<lambda>u. Inr (200, ''<p>x</p>'')\<rparr>"
        "sample_article\<lparr>link := Some ''https://kubernetes.io/blog/b''\<rparr>"]
    by blast
  moreover have "link sample_article \<noteq>
                 link (sample_article\<lparr>link := Some ''https://kubernetes.io/blog/b''\<rparr>)"
    by (simp add: sample_article_def)
  ultimately show ?thesis by (rule conjI [rotated])
qed

text \<open>
  The same article, with the same link, gets another ID at another position of the
  batch, and another ID at another time.
\<close>

theorem post_id_counterexample:
  "original_url (create_post_from_article sample_site sample_article ''docker'' 0) =
   original_url (create_post_from_article sample_site sample_article ''docker'' 1) \<and>
   post_id (create_post_from_article sample_site sample_article ''docker'' 0) \<noteq>
   post_id (create_post_from_article sample_site sample_article ''docker'' 1) \<and>
   post_id (create_post_from_article sample_site sample_article ''docker'' 0) \<noteq>
   post_id (create_post_from_article
              (sample_site\<lparr>post_clock := \<lambda>c i k. sample_time\<lparr>second := 6\<rparr>\<rparr>)
              sample_article ''docker'' 0)"
proof -
  have s5: "zero_pad 2 5 = ''05''" and s6: "zero_pad 2 6 = ''06''"
    by (simp_all add: zero_pad_def str_nat_small digit_def)
  have "strftime_stamp sample_time \<noteq> strftime_stamp (sample_time\<lparr>second := 6\<rparr>)"
    by (simp add: strftime_stamp_def sample_time_def s5 s6)
  then show ?thesis
    by (simp add: create_post_from_article_def make_post_id_def str_nat_small digit_def
        sample_site_def)
qed

subsection \<open>The tags\<close>

text \<open>
  Claim C3.  The \<open>tags\<close> of a post are the category, \<open>container\<close> and
  \<open>cloud-native\<close>, for every category.  The extras of \<open>docker\<close> and \<open>kubernetes\<close>
  are in the list that \<open>generate_post_content\<close> prints into the footer of the
  content, and not in the \<open>tags\<close> of the post.
\<close>

theorem post_tags_without_extras:
  "tags (create_post_from_article w a cat i) = [cat, ''container'', ''cloud-native''] \<and>
   footer_tags ''docker'' =
     [''docker'', ''container'', ''cloud-native'', ''containers'', ''dockerhub'',
      ''docker-compose''] \<and>
   footer_tags ''kubernetes'' =
     [''kubernetes'', ''container'', ''cloud-native'', ''k8s'', ''cncf'', ''cloud-native''] \<and>
   set (tags (create_post_from_article w a ''docker'' i)) \<noteq>
     {''docker'', ''container'', ''cloud-native''} \<union>
     {''containers'', ''dockerhub'', ''docker-compose''} \<and>
   set (tags (create_post_from_article w a ''kubernetes'' i)) \<noteq>
     {''kubernetes'', ''container'', ''cloud-native''} \<union> {''k8s'', ''cncf'', ''cloud-native''}"
proof -
  have d: "''dockerhub'' \<notin> set (tags (create_post_from_article w a ''docker'' i))"
    by (simp add: create_post_from_article_def)
  have k: "''cncf'' \<notin> set (tags (create_post_from_article w a ''kubernetes'' i))"
    by (simp add: create_post_from_article_def)
  have "set (tags (create_post_from_article w a ''docker'' i)) \<noteq>
     {''docker'', ''container'', ''cloud-native''} \<union>
     {''containers'', ''dockerhub'', ''docker-compose''}"
    using d by blast
  moreover have "set (tags (create_post_from_article w a ''kubernetes'' i)) \<noteq>
     {''kubernetes'', ''container'', ''cloud-native''} \<union> {''k8s'', ''cncf'', ''cloud-native''}"
    using k by blast
  ultimately show ?thesis
    by (simp add: create_post_from_article_def footer_tags_def)
qed

subsection \<open>Extraction failure\<close>

lemma get_article_content_try_fails_iff:
  "isl (get_article_content_try w url) \<longleftrightarrow>
   (case url of
      None \<Rightarrow> True
    | Some u \<Rightarrow>
        (case page_get w u of
           Inl x \<Rightarrow> True
         | Inr (code, html) \<Rightarrow>
             (400 \<le> code \<and> code < 600) \<or> isl (html_to_markdown w html)))"
  by (auto simp: get_article_content_try_def raise_for_status_def
      split: option.splits sum.splits prod.splits)

lemma get_article_content_fails:
  "isl (get_article_content_try w url) \<Longrightarrow> get_article_content w url = None"
  by (auto simp: get_article_content_def split: sum.splits)

lemma generate_post_content_fallback:
  "isl (get_article_content_try w (link a)) \<Longrightarrow>
   generate_post_content w a cat = summary a @ attribution a cat"
  by (simp add: generate_post_content_def get_article_content_fails)

lemma create_posts_length: "length (create_posts w cat i as) = length as"
  by (induction as arbitrary: i) simp_all

lemma create_posts_member:
  "a \<in> set as \<Longrightarrow> \<exists>k. create_post_from_article w a cat k \<in> set (create_posts w cat i as)"
proof (induction as arbitrary: i)
  case Nil
  then show ?case by simp
next
  case (Cons b as)
  show ?case
  proof (cases "a = b")
    case True
    then show ?thesis by auto
  next
    case False
    with Cons.prems have "a \<in> set as" by simp
    from Cons.IH [OF this, of "Suc i"] show ?thesis by auto
  qed
qed

text \<open>
  Claim C6.  When fetching or parsing the document of an article raises (the link is
  missing, the request fails, the status is from 400 to 599, or the conversion
  raises), \<open>get_article_content\<close> returns \<open>None\<close>, the content of the post is the
  summary followed by the attribution block, and the post is built like any other: a
  category whose news file loads yields one post for each of its first three articles,
  whatever the fetches do.
\<close>

theorem extraction_failure_falls_back:
  assumes "isl (get_article_content_try w (link a))"
  shows "get_article_content w (link a) = None \<and>
         generate_post_content w a cat = summary a @ attribution a cat \<and>
         content (create_post_from_article w a cat i) = summary a @ attribution a cat \<and>
         excerpt (create_post_from_article w a cat i) = summary a \<and>
         length (category_posts w cat) =
           (case news_file w cat of Inl x \<Rightarrow> 0 | Inr as \<Rightarrow> min 3 (length as)) \<and>
         (news_file w cat = Inr articles \<and> a \<in> set (take 3 articles) \<longrightarrow>
            (\<exists>p. p \<in> set (category_posts w cat) \<and> content p = summary a @ attribution a cat))"
proof -
  have c: "content (create_post_from_article w a cat k) = summary a @ attribution a cat" for k
    using assms by (simp add: create_post_from_article_def generate_post_content_fallback)
  have n: "length (category_posts w cat) =
           (case news_file w cat of Inl x \<Rightarrow> 0 | Inr as \<Rightarrow> min 3 (length as))"
    by (simp add: category_posts_def create_posts_length min.commute split: sum.splits)
  have m: "\<exists>p. p \<in> set (category_posts w cat) \<and> content p = summary a @ attribution a cat"
    if nf: "news_file w cat = Inr articles" and mem: "a \<in> set (take 3 articles)"
  proof -
    obtain k where "create_post_from_article w a cat k \<in> set (create_posts w cat 0 (take 3 articles))"
      using create_posts_member [OF mem] by blast
    then have "create_post_from_article w a cat k \<in> set (category_posts w cat)"
      using nf by (simp add: category_posts_def)
    then show ?thesis using c by blast
  qed
  show ?thesis
    using assms c n m
    by (simp add: get_article_content_fails generate_post_content_fallback
        create_post_from_article_def)
qed

theorem extraction_failure_falls_back_witness:
  "isl (get_article_content_try sample_site (link sample_article)) \<and>
   get_article_content sample_site (link sample_article) = None \<and>
   content (create_post_from_article sample_site sample_article ''docker'' 0) =
     ''Release notes'' @ attribution sample_article ''docker'' \<and>
   length (category_posts sample_site ''docker'') = 1"
proof -
  have h: "isl (get_article_content_try sample_site (link sample_article))"
    by (simp add: get_article_content_try_fails_iff sample_site_def sample_article_def)
  show ?thesis
    using h extraction_failure_falls_back [OF h, of "''docker''" 0 "[sample_article]"]
    by (simp add: sample_site_def sample_article_def)
qed

section \<open>Properties of publish_to_wordpress.py\<close>

subsection \<open>The IDs that generate_posts.py writes are pairwise distinct\<close>

lemma digit_inj: "i < 10 \<Longrightarrow> j < 10 \<Longrightarrow> digit i = digit j \<Longrightarrow> i = j"
proof -
  assume a: "i < 10" "j < 10" "digit i = digit j"
  have d: "distinct ''0123456789''" by simp
  have "''0123456789'' ! i = ''0123456789'' ! j" using a by (simp add: digit_def)
  then show ?thesis using a(1,2) d by (simp add: nth_eq_iff_index_eq)
qed

lemma make_post_id_inj:
  "i < 10 \<Longrightarrow> j < 10 \<Longrightarrow> make_post_id c i t = make_post_id c j t' \<Longrightarrow> i = j"
  by (auto simp: make_post_id_def str_nat_small dest: digit_inj)

lemma create_posts_ids:
  "map post_id (create_posts w c i as) =
   map (\<lambda>k. make_post_id c k (post_clock w c k 1)) [i..<i + length as]"
proof (induction as arbitrary: i)
  case Nil
  show ?case by simp
next
  case (Cons a as)
  have "[i..<i + length (a # as)] = i # [Suc i..<Suc i + length as]"
    using upt_conv_Cons [of i "i + length (a # as)"] by simp
  then show ?case using Cons.IH [of "Suc i"] by (simp add: create_post_from_article_def)
qed

lemma create_posts_distinct:
  assumes "i + length as \<le> 10"
  shows "distinct (map post_id (create_posts w c i as))"
proof -
  have "inj_on (\<lambda>k. make_post_id c k (post_clock w c k 1)) (set [i..<i + length as])"
  proof (rule inj_onI)
    fix x y
    assume "x \<in> set [i..<i + length as]" "y \<in> set [i..<i + length as]"
      and e: "make_post_id c x (post_clock w c x 1) = make_post_id c y (post_clock w c y 1)"
    then have "x < 10" "y < 10" using assms by auto
    then show "x = y" using e by (rule make_post_id_inj)
  qed
  then show ?thesis by (simp add: create_posts_ids distinct_map)
qed

lemma create_posts_hd:
  "p \<in> set (create_posts w c i as) \<Longrightarrow> c \<noteq> [] \<Longrightarrow> hd (post_id p) = hd c"
  by (induction as arbitrary: i) (auto simp: create_post_from_article_def make_post_id_def)

lemma category_posts_distinct: "distinct (map post_id (category_posts w c))"
  by (auto simp: category_posts_def split: sum.splits intro!: create_posts_distinct)

lemma category_posts_hd:
  "k \<in> set (map post_id (category_posts w c)) \<Longrightarrow> c \<noteq> [] \<Longrightarrow> hd k = hd c"
  by (auto simp: category_posts_def split: sum.splits dest: create_posts_hd)

lemma generate_posts_main_distinct: "distinct (map post_id (generate_posts_main w))"
proof -
  have m: "generate_posts_main w =
           category_posts w ''docker'' @ category_posts w ''kubernetes'' @
           category_posts w ''container''"
    by (simp add: generate_posts_main_def)
  have "set (map post_id (category_posts w ''docker'')) \<inter>
        set (map post_id (category_posts w ''kubernetes'')) = {}"
    using category_posts_hd [of _ w "''docker''"] category_posts_hd [of _ w "''kubernetes''"]
    by fastforce
  moreover have "set (map post_id (category_posts w ''docker'')) \<inter>
        set (map post_id (category_posts w ''container'')) = {}"
    using category_posts_hd [of _ w "''docker''"] category_posts_hd [of _ w "''container''"]
    by fastforce
  moreover have "set (map post_id (category_posts w ''kubernetes'')) \<inter>
        set (map post_id (category_posts w ''container'')) = {}"
    using category_posts_hd [of _ w "''kubernetes''"] category_posts_hd [of _ w "''container''"]
    by fastforce
  ultimately show ?thesis
    unfolding m by (simp add: category_posts_distinct Int_Un_distrib)
qed

subsection \<open>The publishing loop\<close>

lemma publish_post_keeps_id:
  "publish_post_to_wordpress w p a u pw log = ((ok, p'), log') \<Longrightarrow> post_id p' = post_id p"
  by (auto simp: publish_post_to_wordpress_def split: prod.splits response.splits
      body.splits if_splits)

text \<open>
  What the loop adds to its variables: the calls it makes follow the order of the
  posts, none of them is for an ID that was known as published, the posts it records
  are those of the successful calls, and their IDs are pairwise distinct.
\<close>

lemma publish_loop_inv:
  "\<exists>cs added.
     calls (publish_loop w a u pw ps s) = calls s @ cs \<and>
     subseq (map fst cs) ps \<and>
     (\<forall>c\<in>set cs. post_id (fst c) \<notin> published_post_ids s) \<and>
     newly_published (publish_loop w a u pw ps s) = newly_published s @ added \<and>
     map post_id added = map (post_id \<circ> fst) (filter snd cs) \<and>
     distinct (map post_id added) \<and>
     published_post_ids (publish_loop w a u pw ps s) =
       published_post_ids s \<union> set (map post_id added)"
proof (induction ps arbitrary: s)
  case Nil
  show ?case by simp
next
  case (Cons p ps)
  show ?case
  proof (cases "post_id p \<in> published_post_ids s")
    case True
    from Cons.IH [of s] obtain cs added where
      h: "calls (publish_loop w a u pw ps s) = calls s @ cs"
         "subseq (map fst cs) ps"
         "\<forall>c\<in>set cs. post_id (fst c) \<notin> published_post_ids s"
         "newly_published (publish_loop w a u pw ps s) = newly_published s @ added"
         "map post_id added = map (post_id \<circ> fst) (filter snd cs)"
         "distinct (map post_id added)"
         "published_post_ids (publish_loop w a u pw ps s) =
            published_post_ids s \<union> set (map post_id added)"
      by blast
    have sub: "subseq (map fst cs) (p # ps)" using h(2) by (rule list_emb_Cons)
    have skip: "publish_loop w a u pw (p # ps) s = publish_loop w a u pw ps s"
      using True by simp
    show ?thesis unfolding skip using h(1) sub h(3-7) by blast
  next
    case False
    obtain ok p' log where r: "publish_post_to_wordpress w p a u pw (sent s) = ((ok, p'), log)"
      by (metis surj_pair)
    have id: "post_id p' = post_id p" using r by (rule publish_post_keeps_id)
    define s1 where "s1 = (if ok then
                  s\<lparr>published_post_ids := insert (post_id p) (published_post_ids s),
                    newly_published := newly_published s @ [p'],
                    sent := log, calls := calls s @ [(p, ok)]\<rparr>
                else s\<lparr>sent := log, calls := calls s @ [(p, ok)]\<rparr>)"
    have step: "publish_loop w a u pw (p # ps) s = publish_loop w a u pw ps s1"
      using False r by (simp add: s1_def)
    from Cons.IH [of s1] obtain cs added where
      h: "calls (publish_loop w a u pw ps s1) = calls s1 @ cs"
         "subseq (map fst cs) ps"
         "\<forall>c\<in>set cs. post_id (fst c) \<notin> published_post_ids s1"
         "newly_published (publish_loop w a u pw ps s1) = newly_published s1 @ added"
         "map post_id added = map (post_id \<circ> fst) (filter snd cs)"
         "distinct (map post_id added)"
         "published_post_ids (publish_loop w a u pw ps s1) =
            published_post_ids s1 \<union> set (map post_id added)"
      by blast
    have sub: "published_post_ids s \<subseteq> published_post_ids s1" by (auto simp: s1_def)
    have c1: "calls s1 = calls s @ [(p, ok)]" by (simp add: s1_def)
    have n1: "newly_published s1 = newly_published s @ (if ok then [p'] else [])"
      by (simp add: s1_def)
    have p1: "published_post_ids s1 = published_post_ids s \<union> (if ok then {post_id p} else {})"
      by (simp add: s1_def)
    let ?cs = "(p, ok) # cs"
    let ?added = "(if ok then [p'] else []) @ added"
    have "calls (publish_loop w a u pw (p # ps) s) = calls s @ ?cs"
      using step h(1) c1 by simp
    moreover have "subseq (map fst ?cs) (p # ps)" using h(2) by simp
    moreover have "\<forall>c\<in>set ?cs. post_id (fst c) \<notin> published_post_ids s"
      using h(3) sub False by auto
    moreover have "newly_published (publish_loop w a u pw (p # ps) s) =
                   newly_published s @ ?added"
      using step h(4) n1 by simp
    moreover have "map post_id ?added = map (post_id \<circ> fst) (filter snd ?cs)"
      using h(5) id by simp
    moreover have "distinct (map post_id ?added)"
    proof (cases ok)
      case True
      have "post_id p \<notin> set (map (post_id \<circ> fst) (filter snd cs))"
        using h(3) p1 True by auto
      then show ?thesis using h(6) h(5) id True by simp
    next
      case False
      then show ?thesis using h(6) by simp
    qed
    moreover have "published_post_ids (publish_loop w a u pw (p # ps) s) =
                   published_post_ids s \<union> set (map post_id ?added)"
      using step h(7) p1 id by auto
    ultimately show ?thesis by blast
  qed
qed

text \<open>Among posts with pairwise distinct IDs, every post not yet published is passed on.\<close>

lemma publish_loop_calls_all:
  "distinct (map post_id ps) \<Longrightarrow> p \<in> set ps \<Longrightarrow> post_id p \<notin> published_post_ids s \<Longrightarrow>
   p \<in> fst ` set (calls (publish_loop w a u pw ps s))"
proof (induction ps arbitrary: s)
  case Nil
  then show ?case by simp
next
  case (Cons q ps)
  show ?case
  proof (cases "p = q")
    case True
    obtain ok p' log where r: "publish_post_to_wordpress w q a u pw (sent s) = ((ok, p'), log)"
      by (metis surj_pair)
    define s1 where "s1 = (if ok then
                  s\<lparr>published_post_ids := insert (post_id q) (published_post_ids s),
                    newly_published := newly_published s @ [p'],
                    sent := log, calls := calls s @ [(q, ok)]\<rparr>
                else s\<lparr>sent := log, calls := calls s @ [(q, ok)]\<rparr>)"
    have step: "publish_loop w a u pw (q # ps) s = publish_loop w a u pw ps s1"
      using True Cons.prems(3) r by (simp add: s1_def)
    obtain cs where "calls (publish_loop w a u pw ps s1) = calls s1 @ cs"
      using publish_loop_inv [of w a u pw ps s1] by blast
    moreover have "(q, ok) \<in> set (calls s1)" by (simp add: s1_def)
    ultimately show ?thesis using step True by force
  next
    case False
    have pin: "p \<in> set ps" using False Cons.prems(2) by simp
    have d: "distinct (map post_id ps)" using Cons.prems(1) by simp
    have "post_id q \<notin> post_id ` set ps" using Cons.prems(1) by simp
    then have neq: "post_id p \<noteq> post_id q" using pin by (metis imageI)
    show ?thesis
    proof (cases "post_id q \<in> published_post_ids s")
      case True
      then show ?thesis using Cons.IH [OF d pin Cons.prems(3)] by simp
    next
      case nin: False
      obtain ok p' log where r: "publish_post_to_wordpress w q a u pw (sent s) = ((ok, p'), log)"
        by (metis surj_pair)
      define s1 where "s1 = (if ok then
                  s\<lparr>published_post_ids := insert (post_id q) (published_post_ids s),
                    newly_published := newly_published s @ [p'],
                    sent := log, calls := calls s @ [(q, ok)]\<rparr>
                else s\<lparr>sent := log, calls := calls s @ [(q, ok)]\<rparr>)"
      have step: "publish_loop w a u pw (q # ps) s = publish_loop w a u pw ps s1"
        using nin r by (simp add: s1_def)
      have "post_id p \<notin> published_post_ids s1"
        using Cons.prems(3) neq by (simp add: s1_def)
      from Cons.IH [OF d pin this] show ?thesis using step by simp
    qed
  qed
qed

subsection \<open>The ledger file\<close>

lemma get_id_post_json: "get_id (post_json p) = Inr (JStr (post_id p))"
  by (simp add: get_id_def post_json_def)

lemma entry_key_post_json: "entry_key (post_json p) = Some (post_id p)"
  by (simp add: entry_key_def post_json_def)


lemma collect_ids_append:
  "collect_ids (xs @ ys) =
     (case collect_ids xs of
        Inl e \<Rightarrow> Inl e
      | Inr a \<Rightarrow> (case collect_ids ys of Inl e \<Rightarrow> Inl e | Inr b \<Rightarrow> Inr (a @ b)))"
  by (induction xs) (auto split: sum.splits)

lemma string_ids_append: "string_ids (xs @ ys) = string_ids xs @ string_ids ys"
  by (induction xs rule: string_ids.induct) simp_all


lemma string_ids_comp: "string_ids (map (JStr \<circ> f) xs) = map f xs"
  by (induction xs) simp_all

lemma collect_ids_posts: "collect_ids (map post_json ps) = Inr (map JStr (map post_id ps))"
  by (induction ps) (simp_all add: get_id_post_json)





lemma update_ledger_nothing: "update_ledger [] l = (l, 0)"
  by (simp add: update_ledger_def)

text \<open>
  After the update, the first load of the next run collects nothing, or the IDs of the
  new posts followed by those it collected before.
\<close>

lemma update_ledger_ids:
  "ledger_ids (fst (update_ledger added l)) = [] \<or>
   ledger_ids (fst (update_ledger added l)) = map post_id added @ ledger_ids l"
proof (cases "added = []")
  case True
  then show ?thesis by (simp add: update_ledger_nothing)
next
  case False
  have new: "ledger_ids (Content (JArr (map post_json added))) = map post_id added"
    by (simp add: ledger_ids_def iterate_def collect_ids_posts string_ids_comp)
  show ?thesis
  proof (cases l)
    case Missing
    then show ?thesis using False new by (simp add: update_ledger_def ledger_ids_def)
  next
    case Undecoded
    then show ?thesis using False new by (simp add: update_ledger_def ledger_ids_def)
  next
    case (Content v)
    show ?thesis
    proof (cases "iterate v")
      case (Inl e)
      then show ?thesis using False new Content by (simp add: update_ledger_def ledger_ids_def)
    next
      case (Inr xs)
      show ?thesis
      proof (cases "collect_ids xs")
        case (Inl e)
        then show ?thesis
          using False Content Inr
          by (simp add: update_ledger_def ledger_ids_def iterate_def collect_ids_append
              collect_ids_posts)
      next
        case ids: (Inr b)
        then show ?thesis
          using False Content Inr
          by (simp add: update_ledger_def ledger_ids_def iterate_def collect_ids_append
              collect_ids_posts string_ids_append string_ids_comp)
      qed
    qed
  qed
qed


subsection \<open>One run\<close>

lemma not_configured:
  "\<not> configured w \<Longrightarrow>
   publish_main w pf l =
     \<lparr>outcome = CredentialsMissing, requests = [], attempts = [], ledger_after = l\<rparr>"
  by (simp add: publish_main_def configured_def)

lemma publish_main_inv:
  "\<exists>added.
     (\<forall>c\<in>set (attempts (publish_main w pf l)). post_id (fst c) \<notin> set (ledger_ids l)) \<and>
     map post_id added = map (post_id \<circ> fst) (filter snd (attempts (publish_main w pf l))) \<and>
     distinct (map post_id added) \<and>
     ledger_after (publish_main w pf l) = fst (update_ledger added l) \<and>
     (case pf of
        Inl x \<Rightarrow> attempts (publish_main w pf l) = []
      | Inr ps \<Rightarrow> subseq (map fst (attempts (publish_main w pf l))) ps)"
proof (cases "configured w")
  case False
  then have "publish_main w pf l =
     \<lparr>outcome = CredentialsMissing, requests = [], attempts = [], ledger_after = l\<rparr>"
    by (rule not_configured)
  then have a: "attempts (publish_main w pf l) = []"
    and b: "ledger_after (publish_main w pf l) = l"
    by simp_all
  have "(\<forall>c\<in>set (attempts (publish_main w pf l)). post_id (fst c) \<notin> set (ledger_ids l)) \<and>
     map post_id [] = map (post_id \<circ> fst) (filter snd (attempts (publish_main w pf l))) \<and>
     distinct (map post_id []) \<and>
     ledger_after (publish_main w pf l) = fst (update_ledger [] l) \<and>
     (case pf of
        Inl x \<Rightarrow> attempts (publish_main w pf l) = []
      | Inr ps \<Rightarrow> subseq (map fst (attempts (publish_main w pf l))) ps)"
    unfolding a b by (cases pf) (simp_all add: update_ledger_nothing)
  then show ?thesis by blast
next
  case True
  show ?thesis
  proof (cases pf)
    case (Inl x)
    then have "publish_main w pf l =
       \<lparr>outcome = PostsNotLoaded x, requests = [], attempts = [], ledger_after = l\<rparr>"
      using True by (simp add: publish_main_def configured_def)
    then have "(\<forall>c\<in>set (attempts (publish_main w pf l)). post_id (fst c) \<notin> set (ledger_ids l)) \<and>
       map post_id [] = map (post_id \<circ> fst) (filter snd (attempts (publish_main w pf l))) \<and>
       distinct (map post_id []) \<and>
       ledger_after (publish_main w pf l) = fst (update_ledger [] l) \<and>
       (case pf of
          Inl x \<Rightarrow> attempts (publish_main w pf l) = []
        | Inr ps \<Rightarrow> subseq (map fst (attempts (publish_main w pf l))) ps)"
      using Inl by (simp add: update_ledger_nothing)
    then show ?thesis by blast
  next
    case (Inr ps)
    define s0 where "s0 = \<lparr>published_post_ids = set (ledger_ids l), newly_published = [],
                            sent = [], calls = []\<rparr>"
    define s where "s = publish_loop w (normalize_api_url (fmt (environ w ''WP_API_URL'')))
                           (fmt (environ w ''WP_USERNAME'')) (fmt (environ w ''WP_PASSWORD''))
                           ps s0"
    have att: "attempts (publish_main w pf l) = calls s"
      and led: "ledger_after (publish_main w pf l) = fst (update_ledger (newly_published s) l)"
      using True Inr
      by (simp_all add: publish_main_def configured_def s_def s0_def Let_def split: prod.splits)
    obtain cs added where
      h: "calls s = calls s0 @ cs"
         "subseq (map fst cs) ps"
         "\<forall>c\<in>set cs. post_id (fst c) \<notin> published_post_ids s0"
         "newly_published s = newly_published s0 @ added"
         "map post_id added = map (post_id \<circ> fst) (filter snd cs)"
         "distinct (map post_id added)"
      unfolding s_def using publish_loop_inv by blast
    have c: "calls s = cs" and n: "newly_published s = added"
      using h(1,4) by (simp_all add: s0_def)
    have "\<forall>c\<in>set cs. post_id (fst c) \<notin> set (ledger_ids l)"
      using h(3) by (simp add: s0_def)
    then show ?thesis
      unfolding att led c n using h(2,5,6) Inr by auto
  qed
qed


lemma distinct_count_one: "distinct xs \<Longrightarrow> x \<in> set xs \<Longrightarrow> count_list xs x = 1"
  by (induction xs) auto


lemma attempts_distinct:
  assumes "distinct (map post_id ps)"
  shows "distinct (map (post_id \<circ> fst) (attempts (publish_main w (Inr ps) l)))"
proof -
  have "subseq (map fst (attempts (publish_main w (Inr ps) l))) ps"
    using publish_main_inv [of w "Inr ps" l] by auto
  then have "subseq (map post_id (map fst (attempts (publish_main w (Inr ps) l))))
                    (map post_id ps)"
    by (rule subseq_map)
  then obtain N where "map post_id (map fst (attempts (publish_main w (Inr ps) l))) =
                        nths (map post_id ps) N"
    using subseq_conv_nths by blast
  then show ?thesis using assms by simp
qed





lemma failed_not_recorded:
  assumes "distinct (map post_id ps)"
      and "(p, False) \<in> set (attempts (publish_main w (Inr ps) l))"
  shows "post_id p \<notin> set (ledger_ids (ledger_after (publish_main w (Inr ps) l)))"
proof -
  let ?a = "attempts (publish_main w (Inr ps) l)"
  obtain added where
    h: "\<forall>c\<in>set ?a. post_id (fst c) \<notin> set (ledger_ids l)"
       "map post_id added = map (post_id \<circ> fst) (filter snd ?a)"
       "ledger_after (publish_main w (Inr ps) l) = fst (update_ledger added l)"
    using publish_main_inv [of w "Inr ps" l] by blast
  have d: "distinct (map (post_id \<circ> fst) ?a)" using assms(1) by (rule attempts_distinct)
  have "post_id p \<notin> set (map (post_id \<circ> fst) (filter snd ?a))"
  proof
    assume "post_id p \<in> set (map (post_id \<circ> fst) (filter snd ?a))"
    then obtain q where q: "(q, True) \<in> set ?a" "post_id q = post_id p" by auto
    have "inj_on (post_id \<circ> fst) (set ?a)" using d by (simp add: distinct_map)
    moreover have "(post_id \<circ> fst) (q, True) = (post_id \<circ> fst) (p, False)"
      using q(2) by simp
    ultimately have "(q, True) = (p, False)" using q(1) assms(2) by (rule inj_onD)
    then show False by simp
  qed
  then have n: "post_id p \<notin> set (map post_id added)" using h(2) by simp
  have o: "post_id p \<notin> set (ledger_ids l)" using h(1) assms(2) by force
  show ?thesis
    unfolding h(3) using update_ledger_ids [of added l] n o by auto
qed

lemma failed_attempted_once:
  assumes "distinct (map post_id ps)"
      and "(p, b) \<in> set (attempts (publish_main w (Inr ps) l))"
  shows "count_list (map fst (attempts (publish_main w (Inr ps) l))) p = 1"
proof -
  let ?a = "attempts (publish_main w (Inr ps) l)"
  have "distinct (map post_id (map fst ?a))" using attempts_distinct [OF assms(1)] by simp
  then have "distinct (map fst ?a)" using distinct_map [of post_id "map fst ?a"] by blast
  moreover have "p \<in> set (map fst ?a)" using assms(2) by force
  ultimately show ?thesis by (rule distinct_count_one)
qed

lemma eligible_is_attempted:
  assumes "configured w" "distinct (map post_id ps)" "p \<in> set ps"
      and "post_id p \<notin> set (ledger_ids l)"
  shows "p \<in> fst ` set (attempts (publish_main w (Inr ps) l))"
proof -
  have "attempts (publish_main w (Inr ps) l) =
        calls (publish_loop w (normalize_api_url (fmt (environ w ''WP_API_URL'')))
                 (fmt (environ w ''WP_USERNAME'')) (fmt (environ w ''WP_PASSWORD'')) ps
                 \<lparr>published_post_ids = set (ledger_ids l), newly_published = [],
                  sent = [], calls = []\<rparr>)"
    using assms(1) by (simp add: publish_main_def configured_def Let_def split: prod.splits)
  then show ?thesis using publish_loop_calls_all [OF assms(2,3)] assms(4) by simp
qed

lemma failed_response_returns_False:
  assumes "prepare_post w p a u pw log = (pd, log1)"
      and "remote w log1 (create_request a u pw pd) = Fault \<or>
           (\<exists>code b. remote w log1 (create_request a u pw pd) = Reply code b \<and> \<not> ok_status code)"
  shows "fst (publish_post_to_wordpress w p a u pw log) = (False, p)"
  using assms by (auto simp: publish_post_to_wordpress_def send_def)

subsection \<open>Several runs\<close>





subsection \<open>The claims\<close>


text \<open>Runs over a single post, used to exercise the theorems on the sample inputs.\<close>

lemma unreachable_publish:
  "remote w = (\<lambda>log rq. Fault) \<Longrightarrow> fst (publish_post_to_wordpress w p a u pw log) = (False, p)"
  by (simp add: publish_post_to_wordpress_def send_def split: prod.splits)

lemma single_post_run:
  assumes "configured w" and "post_id p \<notin> set (ledger_ids l)"
      and "fst (publish_post_to_wordpress w p (normalize_api_url (fmt (environ w ''WP_API_URL'')))
                  (fmt (environ w ''WP_USERNAME'')) (fmt (environ w ''WP_PASSWORD'')) []) = (ok, p')"
  shows "attempts (publish_main w (Inr [p]) l) = [(p, ok)] \<and>
         ledger_after (publish_main w (Inr [p]) l) = (if ok then fst (update_ledger [p'] l) else l) \<and>
         outcome (publish_main w (Inr [p]) l) =
           Published (if ok then snd (update_ledger [p'] l) else 0)"
proof -
  obtain lg where
    r: "publish_post_to_wordpress w p (normalize_api_url (fmt (environ w ''WP_API_URL'')))
          (fmt (environ w ''WP_USERNAME'')) (fmt (environ w ''WP_PASSWORD'')) [] = ((ok, p'), lg)"
    using assms(3) by (metis prod.collapse)
  show ?thesis
    using assms(1,2) r
    by (cases ok)
       (simp_all add: publish_main_def configured_def Let_def update_ledger_nothing
        case_prod_beta)
qed

lemma sample_generated: "generate_posts_main sample_site = [sample_post]"
  by (simp add: generate_posts_main_def category_posts_def sample_site_def sample_post_def)

lemma sample_configured: "configured sample_wordpress"
  by (simp add: configured_def sample_wordpress_def truthy_def)

lemma sample_failed_run:
  "attempts (publish_main sample_wordpress (Inr [sample_post]) Missing) = [(sample_post, False)] \<and>
   ledger_after (publish_main sample_wordpress (Inr [sample_post]) Missing) = Missing"
proof -
  have "remote sample_wordpress = (\<lambda>log rq. Fault)" by (simp add: sample_wordpress_def)
  then have "fst (publish_post_to_wordpress sample_wordpress sample_post
                  (normalize_api_url (fmt (environ sample_wordpress ''WP_API_URL'')))
                  (fmt (environ sample_wordpress ''WP_USERNAME''))
                  (fmt (environ sample_wordpress ''WP_PASSWORD'')) []) = (False, sample_post)"
    by (rule unreachable_publish)
  moreover have "post_id sample_post \<notin> set (ledger_ids Missing)"
    by (simp add: ledger_ids_def)
  ultimately show ?thesis
    using single_post_run [OF sample_configured, of sample_post Missing False sample_post]
    by simp
qed


text \<open>
  Claim C8.  When the request that creates the post raises or is answered with a
  status other than 200 and 201, \<open>publish_post_to_wordpress\<close> returns \<open>False\<close> and
  leaves the post as it was.  In a run over the posts that \<open>generate_posts.py\<close> wrote,
  a post whose call returned \<open>False\<close> was passed to \<open>publish_post_to_wordpress\<close>
  exactly once, its ID is not among the IDs that a run loads from the ledger file
  after the run, and a later configured run whose \<open>data/posts.json\<close> holds the post
  passes it to \<open>publish_post_to_wordpress\<close> again.
\<close>

theorem failed_publish_stays_eligible:
  "(prepare_post w p a u pw log = (pd, log1) \<and>
    (remote w log1 (create_request a u pw pd) = Fault \<or>
     (\<exists>code b. remote w log1 (create_request a u pw pd) = Reply code b \<and> \<not> ok_status code))
    \<longrightarrow> fst (publish_post_to_wordpress w p a u pw log) = (False, p)) \<and>
   ((q, False) \<in> set (attempts (publish_main w (Inr (generate_posts_main g)) l)) \<longrightarrow>
      count_list (map fst (attempts (publish_main w (Inr (generate_posts_main g)) l))) q = 1 \<and>
      post_id q \<notin>
        set (ledger_ids (ledger_after (publish_main w (Inr (generate_posts_main g)) l))) \<and>
      (configured w' \<and> q \<in> set (generate_posts_main g') \<longrightarrow>
         q \<in> fst ` set (attempts (publish_main w' (Inr (generate_posts_main g'))
                 (ledger_after (publish_main w (Inr (generate_posts_main g)) l))))))"
proof (intro conjI impI)
  assume "prepare_post w p a u pw log = (pd, log1) \<and>
    (remote w log1 (create_request a u pw pd) = Fault \<or>
     (\<exists>code b. remote w log1 (create_request a u pw pd) = Reply code b \<and> \<not> ok_status code))"
  then show "fst (publish_post_to_wordpress w p a u pw log) = (False, p)"
    using failed_response_returns_False by blast
next
  assume f: "(q, False) \<in> set (attempts (publish_main w (Inr (generate_posts_main g)) l))"
  show "count_list (map fst (attempts (publish_main w (Inr (generate_posts_main g)) l))) q = 1"
    using generate_posts_main_distinct f by (rule failed_attempted_once)
next
  assume f: "(q, False) \<in> set (attempts (publish_main w (Inr (generate_posts_main g)) l))"
  show "post_id q \<notin>
        set (ledger_ids (ledger_after (publish_main w (Inr (generate_posts_main g)) l)))"
    using generate_posts_main_distinct f by (rule failed_not_recorded)
next
  assume f: "(q, False) \<in> set (attempts (publish_main w (Inr (generate_posts_main g)) l))"
     and n: "configured w' \<and> q \<in> set (generate_posts_main g')"
  have "post_id q \<notin>
        set (ledger_ids (ledger_after (publish_main w (Inr (generate_posts_main g)) l)))"
    using generate_posts_main_distinct f by (rule failed_not_recorded)
  then show "q \<in> fst ` set (attempts (publish_main w' (Inr (generate_posts_main g'))
                 (ledger_after (publish_main w (Inr (generate_posts_main g)) l))))"
    using n generate_posts_main_distinct [of g'] by (intro eligible_is_attempted) simp_all
qed

theorem failed_publish_stays_eligible_witness:
  "(sample_post, False) \<in>
     set (attempts (publish_main sample_wordpress (Inr (generate_posts_main sample_site)) Missing)) \<and>
   count_list (map fst
     (attempts (publish_main sample_wordpress (Inr (generate_posts_main sample_site)) Missing)))
     sample_post = 1 \<and>
   post_id sample_post \<notin> set (ledger_ids (ledger_after
     (publish_main sample_wordpress (Inr (generate_posts_main sample_site)) Missing))) \<and>
   configured sample_wordpress \<and> sample_post \<in> set (generate_posts_main sample_site) \<and>
   sample_post \<in> fst ` set (attempts
     (publish_main sample_wordpress (Inr (generate_posts_main sample_site))
        (ledger_after
           (publish_main sample_wordpress (Inr (generate_posts_main sample_site)) Missing)))) \<and>
   remote sample_wordpress
     (snd (prepare_post sample_wordpress sample_post ''https://blog.example/wp-json''
             ''editor'' ''secret'' []))
     (create_request ''https://blog.example/wp-json'' ''editor'' ''secret''
        (fst (prepare_post sample_wordpress sample_post ''https://blog.example/wp-json''
                ''editor'' ''secret'' []))) = Fault \<and>
   fst (publish_post_to_wordpress sample_wordpress sample_post ''https://blog.example/wp-json''
          ''editor'' ''secret'' []) = (False, sample_post)"
proof -
  let ?r = "publish_main sample_wordpress (Inr (generate_posts_main sample_site)) Missing"
  let ?pp = "prepare_post sample_wordpress sample_post ''https://blog.example/wp-json''
               ''editor'' ''secret'' []"
  note t = failed_publish_stays_eligible [of sample_wordpress sample_post
      "''https://blog.example/wp-json''" "''editor''" "''secret''" "[]" "fst ?pp" "snd ?pp"
      sample_post sample_site Missing sample_wordpress sample_site]
  have f: "(sample_post, False) \<in> set (attempts ?r)"
    using sample_failed_run by (simp add: sample_generated)
  have m: "sample_post \<in> set (generate_posts_main sample_site)"
    by (simp add: sample_generated)
  have pr: "?pp = (fst ?pp, snd ?pp)" by simp
  have fl: "remote sample_wordpress (snd ?pp)
              (create_request ''https://blog.example/wp-json'' ''editor'' ''secret'' (fst ?pp)) =
            Fault"
    by (simp add: sample_wordpress_def)
  have a1: "fst (publish_post_to_wordpress sample_wordpress sample_post
                  ''https://blog.example/wp-json'' ''editor'' ''secret'' []) = (False, sample_post)"
    using t pr fl by blast
  have a2: "count_list (map fst (attempts ?r)) sample_post = 1"
    using t f by blast
  have a3: "post_id sample_post \<notin> set (ledger_ids (ledger_after ?r))"
    using t f by blast
  have a4: "sample_post \<in> fst ` set (attempts
     (publish_main sample_wordpress (Inr (generate_posts_main sample_site)) (ledger_after ?r)))"
    using t f m sample_configured by blast
  from f a2 a3 sample_configured m a4 fl a1 show ?thesis by (intro conjI)
qed

text \<open>
  Claim C9.  When one of \<open>WP_USERNAME\<close>, \<open>WP_PASSWORD\<close> and \<open>WP_API_URL\<close> is unset
  or empty, the run ends with the message about the credentials: it has sent no
  request, has not called \<open>publish_post_to_wordpress\<close>, and the ledger file is as it
  was.
\<close>

theorem missing_credentials_abort:
  assumes "v \<in> {''WP_USERNAME'', ''WP_PASSWORD'', ''WP_API_URL''}"
      and "environ w v = None \<or> environ w v = Some []"
  shows "publish_main w pf l =
           \<lparr>outcome = CredentialsMissing, requests = [], attempts = [], ledger_after = l\<rparr>"
proof -
  have "\<not> truthy (environ w v)" using assms(2) by (auto simp: truthy_def)
  then have "\<not> configured w" using assms(1) by (auto simp: configured_def)
  then show ?thesis by (rule not_configured)
qed

theorem missing_credentials_abort_witness:
  "environ (sample_wordpress\<lparr>environ := \<lambda>v. if v = ''WP_PASSWORD'' then None
                                            else environ sample_wordpress v\<rparr>)
     ''WP_PASSWORD'' = None \<and>
   publish_main (sample_wordpress\<lparr>environ := \<lambda>v. if v = ''WP_PASSWORD'' then None
                                                 else environ sample_wordpress v\<rparr>)
     (Inr [sample_post]) (Content (JArr [post_json sample_post])) =
     \<lparr>outcome = CredentialsMissing, requests = [], attempts = [],
      ledger_after = Content (JArr [post_json sample_post])\<rparr>"
proof -
  let ?w = "sample_wordpress\<lparr>environ := \<lambda>v. if v = ''WP_PASSWORD'' then None
                                            else environ sample_wordpress v\<rparr>"
  have h: "environ ?w ''WP_PASSWORD'' = None" by simp
  have "''WP_PASSWORD'' \<in> {''WP_USERNAME'', ''WP_PASSWORD'', ''WP_API_URL''}" by simp
  from missing_credentials_abort [OF this, of ?w "Inr [sample_post]"
      "Content (JArr [post_json sample_post])"] h
  show ?thesis by simp
qed

text \<open>
  A sample of two runs against a site that answers every request with 201: the first
  run records the post, the second finds it in the ledger file and sends nothing.
\<close>

lemma answered_publish:
  "remote w = (\<lambda>log rq. Reply 201 (JsonObject i ln)) \<Longrightarrow>
   fst (publish_post_to_wordpress w p a u pw log) =
     (True, p\<lparr>wordpress_id := i, wordpress_url := ln,
              published_at := Some (strftime_iso (publish_clock w
                (snd (prepare_post w p a u pw log) @
                 [create_request a u pw (fst (prepare_post w p a u pw log))])))\<rparr>)"
  by (simp add: publish_post_to_wordpress_def send_def ok_status_def split: prod.splits)

lemma sample_two_runs:
  "publish_runs
     [(sample_wordpress\<lparr>remote := \<lambda>log rq. Reply 201 (JsonObject (Some 7) None)\<rparr>,
       Inr [sample_post]),
      (sample_wordpress\<lparr>remote := \<lambda>log rq. Reply 201 (JsonObject (Some 7) None)\<rparr>,
       Inr [sample_post])]
     Missing =
   Content (JArr [post_json (sample_post\<lparr>wordpress_id := Some 7, wordpress_url := None,
                     published_at := Some (strftime_iso sample_time)\<rparr>)])"
proof -
  let ?w = "sample_wordpress\<lparr>remote := \<lambda>log rq. Reply 201 (JsonObject (Some 7) None)\<rparr>"
  let ?p = "sample_post\<lparr>wordpress_id := Some 7, wordpress_url := None,
                        published_at := Some (strftime_iso sample_time)\<rparr>"
  let ?l = "Content (JArr [post_json ?p])"
  have c: "configured ?w" by (simp add: configured_def sample_wordpress_def truthy_def)
  have "remote ?w = (\<lambda>log rq. Reply 201 (JsonObject (Some 7) None))" by simp
  then have "fst (publish_post_to_wordpress ?w sample_post
                  (normalize_api_url (fmt (environ ?w ''WP_API_URL'')))
                  (fmt (environ ?w ''WP_USERNAME'')) (fmt (environ ?w ''WP_PASSWORD'')) []) =
             (True, ?p)"
    by (simp add: answered_publish sample_wordpress_def)
  moreover have "post_id sample_post \<notin> set (ledger_ids Missing)"
    by (simp add: ledger_ids_def)
  ultimately have first: "ledger_after (publish_main ?w (Inr [sample_post]) Missing) = ?l"
    using single_post_run [OF c, of sample_post Missing True ?p]
    by (simp add: update_ledger_def)
  have "ledger_ids ?l = [post_id sample_post]"
    by (simp add: ledger_ids_def iterate_def get_id_post_json)
  then have "ledger_after (publish_main ?w (Inr [sample_post]) ?l) = ?l"
    using c by (simp add: publish_main_def configured_def update_ledger_nothing)
  with first show ?thesis by simp
qed

text \<open>
  A ledger file that the script did not write, with an entry that is not an object:
  the first load raises on it, so the ID that the file holds is published again, and
  the second load writes the old entries back after the new one.  The count printed
  is that of all three.
\<close>

lemma ledger_with_foreign_entry:
  "\<not> well_formed (Content (JArr [JObj [(''id'', JStr (post_id sample_post))], JStr ''x''])) \<and>
   held_ids (Content (JArr [JObj [(''id'', JStr (post_id sample_post))], JStr ''x''])) =
     [post_id sample_post] \<and>
   ledger_ids (Content (JArr [JObj [(''id'', JStr (post_id sample_post))], JStr ''x''])) = [] \<and>
   attempts (publish_main
     (sample_wordpress\<lparr>remote := \<lambda>log rq. Reply 201 (JsonObject (Some 7) None)\<rparr>)
     (Inr [sample_post])
     (Content (JArr [JObj [(''id'', JStr (post_id sample_post))], JStr ''x'']))) =
     [(sample_post, True)] \<and>
   held_ids (ledger_after (publish_main
     (sample_wordpress\<lparr>remote := \<lambda>log rq. Reply 201 (JsonObject (Some 7) None)\<rparr>)
     (Inr [sample_post])
     (Content (JArr [JObj [(''id'', JStr (post_id sample_post))], JStr ''x''])))) =
     [post_id sample_post, post_id sample_post] \<and>
   outcome (publish_main
     (sample_wordpress\<lparr>remote := \<lambda>log rq. Reply 201 (JsonObject (Some 7) None)\<rparr>)
     (Inr [sample_post])
     (Content (JArr [JObj [(''id'', JStr (post_id sample_post))], JStr ''x'']))) =
     Published 3"
proof -
  let ?w = "sample_wordpress\<lparr>remote := \<lambda>log rq. Reply 201 (JsonObject (Some 7) None)\<rparr>"
  let ?p = "sample_post\<lparr>wordpress_id := Some 7, wordpress_url := None,
                        published_at := Some (strftime_iso sample_time)\<rparr>"
  let ?l = "Content (JArr [JObj [(''id'', JStr (post_id sample_post))], JStr ''x''])"
  have c: "configured ?w" by (simp add: configured_def sample_wordpress_def truthy_def)
  have nwf: "\<not> well_formed ?l" by (simp add: well_formed_def entry_key_def)
  have held: "held_ids ?l = [post_id sample_post]"
    by (simp add: held_ids_def ledger_items_def map_filter_simps entry_key_def)
  have ids: "ledger_ids ?l = []"
    by (simp add: ledger_ids_def iterate_def get_id_def)
  have "remote ?w = (\<lambda>log rq. Reply 201 (JsonObject (Some 7) None))" by simp
  then have "fst (publish_post_to_wordpress ?w sample_post
                  (normalize_api_url (fmt (environ ?w ''WP_API_URL'')))
                  (fmt (environ ?w ''WP_USERNAME'')) (fmt (environ ?w ''WP_PASSWORD'')) []) =
             (True, ?p)"
    by (simp add: answered_publish sample_wordpress_def)
  moreover have "post_id sample_post \<notin> set (ledger_ids ?l)" by (simp add: ids)
  ultimately have run:
    "attempts (publish_main ?w (Inr [sample_post]) ?l) = [(sample_post, True)]"
    "ledger_after (publish_main ?w (Inr [sample_post]) ?l) = fst (update_ledger [?p] ?l)"
    "outcome (publish_main ?w (Inr [sample_post]) ?l) = Published (snd (update_ledger [?p] ?l))"
    using single_post_run [OF c, of sample_post ?l True ?p] by simp_all
  have upd: "update_ledger [?p] ?l =
             (Content (JArr [post_json ?p, JObj [(''id'', JStr (post_id sample_post))],
                             JStr ''x'']), 3)"
    by (simp add: update_ledger_def iterate_def)
  have after: "held_ids (fst (update_ledger [?p] ?l)) = [post_id sample_post, post_id sample_post]"
    unfolding upd
    by (simp add: held_ids_def ledger_items_def map_filter_simps entry_key_post_json)
       (simp add: entry_key_def)
  from nwf held ids run(1) after run(3) show ?thesis
    unfolding run(2) upd by simp
qed

end
